theory Spec2Isabelle
  imports Main
begin

section \<open>Python string and integer primitives used by fp_extractor.py\<close>

text \<open>
  Python strings are modelled as \<open>string\<close>, one \<open>char\<close> per code point, so the
  model covers inputs whose code points are below 256 (Latin-1). Exceptions are values
  of type \<open>error\<close>; a function that may raise returns \<open>error + 'a\<close>.
\<close>

datatype error =
    ValueError string
  | AssertionError string
  | IndexError
  | TypeError

text \<open>\<open>str.lower()\<close> on code points below 256.\<close>

definition lower_char :: "char \<Rightarrow> char" where
  "lower_char c =
     (let n = (of_char c :: nat)
      in if (65 \<le> n \<and> n \<le> 90) \<or> (192 \<le> n \<and> n \<le> 222 \<and> n \<noteq> 215)
         then char_of (n + 32) else c)"

definition lower :: "string \<Rightarrow> string" where
  "lower s = map lower_char s"

text \<open>\<open>str.isspace()\<close> of one code point below 256, and \<open>str.strip()\<close>.\<close>

definition isspace_char :: "char \<Rightarrow> bool" where
  "isspace_char c =
     (let n = (of_char c :: nat)
      in (9 \<le> n \<and> n \<le> 13) \<or> (28 \<le> n \<and> n \<le> 32) \<or> n = 133 \<or> n = 160)"

definition strip :: "string \<Rightarrow> string" where
  "strip s = rev (dropWhile isspace_char (rev (dropWhile isspace_char s)))"

text \<open>\<open>s.replace("_", "")\<close>.\<close>

definition replace_underscore :: "string \<Rightarrow> string" where
  "replace_underscore s = filter (\<lambda>c. c \<noteq> CHR ''_'') s"

text \<open>\<open>s.startswith(p)\<close>.\<close>

definition startswith :: "string \<Rightarrow> string \<Rightarrow> bool" where
  "startswith s p = (take (length p) s = p)"

text \<open>
  \<open>s.zfill(w)\<close>: pad with \<open>0\<close> on the left up to length \<open>w\<close>; the zeros go
  after a leading sign character.
\<close>

definition zfill :: "string \<Rightarrow> nat \<Rightarrow> string" where
  "zfill s w =
     (if w \<le> length s then s
      else (case s of
              [] \<Rightarrow> replicate w (CHR ''0'')
            | c # cs \<Rightarrow>
                if c = CHR ''+'' \<or> c = CHR ''-''
                then c # replicate (w - length s) (CHR ''0'') @ cs
                else replicate (w - length s) (CHR ''0'') @ s))"

text \<open>
  \<open>s[i]\<close> for an integer index: a negative index counts from the end, an index out of
  range raises IndexError. The result is a string of length one.
\<close>

definition py_index :: "string \<Rightarrow> int \<Rightarrow> error + string" where
  "py_index s i =
     (let n = int (length s); j = (if i < 0 then n + i else i)
      in if 0 \<le> j \<and> j < n then Inr [s ! nat j] else Inl IndexError)"

text \<open>
  The extended slices \<open>s[a:b:-1]\<close> and \<open>s[a::-1]\<close> for indices \<open>a, b \<ge> 0\<close>:
  Python clamps \<open>a\<close> and \<open>b\<close> to the last index and walks from \<open>a\<close> down to
  \<open>b + 1\<close> (down to \<open>0\<close> when the stop is left out).
\<close>

definition slice_down :: "string \<Rightarrow> nat \<Rightarrow> nat \<Rightarrow> string" where
  "slice_down s a b = rev (drop (Suc b) (take (Suc a) s))"

definition slice_down_all :: "string \<Rightarrow> nat \<Rightarrow> string" where
  "slice_down_all s a = rev (take (Suc a) s)"

text \<open>\<open>str(n)\<close> for an integer: decimal digits, with a minus sign when negative.\<close>

definition digit_char :: "nat \<Rightarrow> char" where
  "digit_char d = ''0123456789'' ! d"

fun str_of_nat :: "nat \<Rightarrow> string" where
  "str_of_nat n = (if n < 10 then [digit_char n] else str_of_nat (n div 10) @ [digit_char (n mod 10)])"

declare str_of_nat.simps [simp del]

definition str_of_int :: "int \<Rightarrow> string" where
  "str_of_int i = (if i < 0 then CHR ''-'' # str_of_nat (nat (- i)) else str_of_nat (nat i))"

text \<open>\<open>bin(n)[2:]\<close> for \<open>n \<ge> 0\<close>: the binary digits of \<open>n\<close>, most significant first.\<close>

fun bin_digits :: "nat \<Rightarrow> string" where
  "bin_digits n = (if n < 2 then [digit_char n] else bin_digits (n div 2) @ [digit_char (n mod 2)])"

declare bin_digits.simps [simp del]

text \<open>
  \<open>int(s, base)\<close> on the literals that reach it in this program: strings of digits of
  the base (Python also accepts a sign, blanks, a base prefix and single underscores
  between digits, which the callers' checks exclude). The empty string and a foreign
  character raise ValueError.
\<close>

definition digit_val :: "char \<Rightarrow> nat option" where
  "digit_val c =
     (let n = (of_char c :: nat)
      in if 48 \<le> n \<and> n \<le> 57 then Some (n - 48)
         else if 97 \<le> n \<and> n \<le> 102 then Some (n - 87)
         else if 65 \<le> n \<and> n \<le> 70 then Some (n - 55)
         else None)"

definition is_digit_of :: "nat \<Rightarrow> char \<Rightarrow> bool" where
  "is_digit_of base c = (case digit_val c of None \<Rightarrow> False | Some d \<Rightarrow> d < base)"

definition digits_value :: "nat \<Rightarrow> string \<Rightarrow> nat" where
  "digits_value base s = foldl (\<lambda>acc c. acc * base + the (digit_val c)) 0 s"

definition py_int :: "string \<Rightarrow> nat \<Rightarrow> error + nat" where
  "py_int s base =
     (if s = [] \<or> \<not> list_all (is_digit_of base) s
      then Inl (ValueError (''invalid literal for int() with base '' @ str_of_nat base
                            @ '': '' @ [CHR 0x27] @ s @ [CHR 0x27]))
      else Inr (digits_value base s))"

section \<open>The format catalog\<close>

text \<open>
  \<open>FPFormat = namedtuple("FPFormat", ["width", "exponent", "mantissa"])\<close>; the two
  ranges are pairs (msb index, lsb index). Every index of the catalog is a natural
  number, and the fields are modelled as such.
\<close>

record FPFormat =
  width :: nat
  exponent :: "nat \<times> nat"
  mantissa :: "nat \<times> nat"

text \<open>\<open>Fp = namedtuple("FP", ["sign", "exponent", "mantissa"])\<close>.\<close>

datatype Fp = Fp (fp_sign: string) (fp_exponent: string) (fp_mantissa: string)

definition FPFormat :: "nat \<Rightarrow> nat \<times> nat \<Rightarrow> nat \<times> nat \<Rightarrow> FPFormat" where
  "FPFormat w e m = \<lparr>width = w, exponent = e, mantissa = m\<rparr>"

definition FP_CONFIG :: "(string \<times> FPFormat) list" where
  "FP_CONFIG =
     [(''FP64'', FPFormat 64 (62, 52) (51, 0)),
      (''FP32'', FPFormat 32 (30, 23) (22, 0)),
      (''TF32'', FPFormat 32 (30, 23) (22, 13)),
      (''FP16'', FPFormat 16 (14, 10) (9, 0)),
      (''BF16'', FPFormat 16 (14, 7) (6, 0)),
      (''FP8_E4M3'', FPFormat 8 (6, 3) (2, 0)),
      (''FP8_E5M2'', FPFormat 8 (6, 2) (1, 0))]"

section \<open>Field extraction\<close>

definition hex_str_check :: "string \<Rightarrow> bool" where
  "hex_str_check hex_str = list_all (\<lambda>c. c \<in> set ''0123456789abcdef'') (lower hex_str)"

definition bin_str_check :: "string \<Rightarrow> bool" where
  "bin_str_check bin_str = list_all (\<lambda>c. c \<in> set ''01'') bin_str"

definition hex_str_to_bin :: "string \<Rightarrow> nat \<Rightarrow> error + string" where
  "hex_str_to_bin hex_str w =
     (case py_int hex_str 16 of
        Inl e \<Rightarrow> Inl e
      | Inr n \<Rightarrow>
          (let bin_str = zfill (bin_digits n) w;
               bin_len = length bin_str
           in Inr (drop (bin_len - w) bin_str)))"

definition extract_exponent :: "string \<Rightarrow> FPFormat \<Rightarrow> error + string" where
  "extract_exponent bin_str fp_fmt =
     (let msb_idx = fst (exponent fp_fmt);
          lsb_idx = snd (exponent fp_fmt) - 1
      in if \<not> (snd (exponent fp_fmt) > 1) then Inl (AssertionError ''Invalid Exponent Index'')
         else Inr (slice_down bin_str msb_idx lsb_idx))"

definition extract_mantissa :: "string \<Rightarrow> FPFormat \<Rightarrow> error + string" where
  "extract_mantissa bin_str fp_fmt =
     (let msb_idx = fst (mantissa fp_fmt)
      in if snd (mantissa fp_fmt) = 0 then Inr (slice_down_all bin_str msb_idx)
         else (let lsb_idx = snd (mantissa fp_fmt) - 1
               in Inr (slice_down bin_str msb_idx lsb_idx)))"

definition extract_sign :: "string \<Rightarrow> FPFormat \<Rightarrow> error + string" where
  "extract_sign bin_str fp_fmt = py_index bin_str (int (width fp_fmt) - 1)"

text \<open>
  The constructor call \<open>Fp(extract_sign(..), extract_exponent(..), extract_mantissa(..))\<close>
  evaluates its arguments from left to right; the first exception wins.
\<close>

definition extract_fields :: "string \<Rightarrow> FPFormat \<Rightarrow> error + Fp" where
  "extract_fields s fp_fmt =
     (case extract_sign s fp_fmt of
        Inl e \<Rightarrow> Inl e
      | Inr sg \<Rightarrow>
          (case extract_exponent s fp_fmt of
             Inl e \<Rightarrow> Inl e
           | Inr ex \<Rightarrow>
               (case extract_mantissa s fp_fmt of
                  Inl e \<Rightarrow> Inl e
                | Inr ma \<Rightarrow> Inr (Fp sg ex ma))))"

definition hex_extractor :: "string \<Rightarrow> FPFormat \<Rightarrow> error + Fp" where
  "hex_extractor hex_str fp_fmt =
     (if \<not> hex_str_check hex_str
      then Inl (ValueError (''Invalid Hex Value: ['' @ hex_str @ '']''))
      else (case hex_str_to_bin hex_str (width fp_fmt) of
              Inl e \<Rightarrow> Inl e
            | Inr b \<Rightarrow>
                (let bin_str = rev b
                 in if length bin_str \<noteq> width fp_fmt
                    then Inl (AssertionError ''Invalid binary string length'')
                    else extract_fields bin_str fp_fmt)))"

definition bin_extractor :: "string \<Rightarrow> FPFormat \<Rightarrow> error + Fp" where
  "bin_extractor bin_str0 fp_fmt =
     (if \<not> bin_str_check bin_str0
      then Inl (ValueError (''Invalid Binary Value: ['' @ bin_str0 @ '']''))
      else (let bin_str = zfill bin_str0 (width fp_fmt);
                bin_len = length bin_str;
                tmp_str = drop (bin_len - width fp_fmt) bin_str;
                fp_str = rev tmp_str
            in if length fp_str \<noteq> width fp_fmt
               then Inl (AssertionError ''Invalid binary string length'')
               else extract_fields fp_str fp_fmt))"

section \<open>The extractor object\<close>

text \<open>
  The attributes of class \<open>FPExtractor\<close>; \<open>sign\<close>, \<open>exponent\<close> and \<open>mantissa\<close>
  are \<open>None\<close> until the first successful extraction. A method that assigns attributes
  returns the exception it raised, if any, together with the object as it is afterwards.
\<close>

record FPExtractor =
  fmt_name :: string
  fp_fmt :: FPFormat
  self_sign :: "string option"
  self_exponent :: "string option"
  self_mantissa :: "string option"

definition FPExtractor_init :: "string \<Rightarrow> FPFormat \<Rightarrow> FPExtractor" where
  "FPExtractor_init name fmt =
     \<lparr>fmt_name = name, fp_fmt = fmt, self_sign = None, self_exponent = None,
      self_mantissa = None\<rparr>"

definition store_fields :: "FPExtractor \<Rightarrow> error + Fp \<Rightarrow> error option \<times> FPExtractor" where
  "store_fields self r =
     (case r of
        Inl e \<Rightarrow> (Some e, self)
      | Inr extract_dict \<Rightarrow>
          (None, self\<lparr>self_sign := Some (fp_sign extract_dict),
                       self_exponent := Some (fp_exponent extract_dict),
                       self_mantissa := Some (fp_mantissa extract_dict)\<rparr>))"

definition extract_hex :: "FPExtractor \<Rightarrow> string \<Rightarrow> error option \<times> FPExtractor" where
  "extract_hex self hex_str = store_fields self (hex_extractor hex_str (fp_fmt self))"

definition extract_bin :: "FPExtractor \<Rightarrow> string \<Rightarrow> error option \<times> FPExtractor" where
  "extract_bin self bin_str = store_fields self (bin_extractor bin_str (fp_fmt self))"

definition extract_fp_str :: "FPExtractor \<Rightarrow> string \<Rightarrow> error option \<times> FPExtractor" where
  "extract_fp_str self fp_str0 =
     (let fp_str = lower fp_str0
      in if startswith fp_str ''0x'' then extract_hex self (drop 2 fp_str)
         else if startswith fp_str ''0b'' then extract_bin self (drop 2 fp_str)
         else (Some (ValueError (''Input must start with 0x or 0b: ['' @ fp_str @ '']'')), self))"

section \<open>Classification\<close>

definition int_of_field :: "string option \<Rightarrow> error + nat" where
  "int_of_field v = (case v of None \<Rightarrow> Inl TypeError | Some s \<Rightarrow> py_int s 2)"

definition get_exponent_value :: "FPExtractor \<Rightarrow> error + nat" where
  "get_exponent_value self = int_of_field (self_exponent self)"

definition get_mantissa_value :: "FPExtractor \<Rightarrow> error + nat" where
  "get_mantissa_value self = int_of_field (self_mantissa self)"

definition is_positive :: "FPExtractor \<Rightarrow> bool" where
  "is_positive self = (self_sign self = Some ''0'')"

text \<open>An attribute inside an f-string: \<open>None\<close> prints as \<open>None\<close>.\<close>

definition fmt_field :: "string option \<Rightarrow> string" where
  "fmt_field v = (case v of None \<Rightarrow> ''None'' | Some s \<Rightarrow> s)"

definition get_e4m3_expression :: "FPExtractor \<Rightarrow> int \<Rightarrow> nat \<Rightarrow> string option \<Rightarrow> string" where
  "get_e4m3_expression self exponent_value mantissa_value sgn_str =
     (if exponent_value = 8 \<and> mantissa_value = 7 then ''NaN''
      else if exponent_value = - 7 then
        (if mantissa_value = 0 then (if sgn_str = Some ''1'' then ''+Zero'' else ''-Zero'')
         else ''Subnormal: sign:'' @ fmt_field sgn_str @ '', exponent:''
              @ str_of_int (exponent_value + 1) @ '', mantissa: 0.''
              @ fmt_field (self_mantissa self))
      else ''Normal: sign:'' @ fmt_field sgn_str @ '', exponent:''
           @ str_of_int exponent_value @ '', mantissa: 1.'' @ fmt_field (self_mantissa self))"

text \<open>
  \<open>exponent_bias = 2 ** (exponent_width - 1) - 1\<close>; the power is an integer for
  \<open>exponent_width \<ge> 1\<close>, which every catalog format has (Python's float result for a
  negative power is outside the model).
\<close>

definition get_fp_expression :: "FPExtractor \<Rightarrow> error + string" where
  "get_fp_expression self =
     (let exponent_width = int (fst (exponent (fp_fmt self))) - int (snd (exponent (fp_fmt self))) + 1;
          exponent_bias = (2 :: int) ^ nat (exponent_width - 1) - 1
      in case get_exponent_value self of
           Inl e \<Rightarrow> Inl e
         | Inr exponent_original \<Rightarrow>
             (let exponent_effective = int exponent_original - exponent_bias
              in case get_mantissa_value self of
                   Inl e \<Rightarrow> Inl e
                 | Inr mantissa_value \<Rightarrow>
                     if fmt_name self = ''FP8_E4M3''
                     then Inr (get_e4m3_expression self exponent_effective mantissa_value
                                 (self_sign self))
                     else if exponent_effective = exponent_bias + 1 then
                       (if mantissa_value = 0
                        then Inr (if is_positive self then ''+Inf'' else ''-Inf'')
                        else Inr ''NaN'')
                     else if exponent_original = 0 then
                       (if mantissa_value = 0
                        then Inr (if is_positive self then ''+Zero'' else ''-Zero'')
                        else Inr (''Subnormal: sign:'' @ fmt_field (self_sign self)
                                  @ '', exponent:'' @ str_of_int (exponent_effective + 1)
                                  @ '', mantissa: 0.'' @ fmt_field (self_mantissa self)))
                     else Inr (''Normal: sign:'' @ fmt_field (self_sign self)
                               @ '', exponent:'' @ str_of_int exponent_effective
                               @ '', mantissa: 1.'' @ fmt_field (self_mantissa self))))"

section \<open>The input handler of the display layer\<close>

text \<open>
  \<open>GUI.update_bits\<close> without its widget updates: the text it puts into the result
  label, or the exception it lets escape (it catches ValueError only), and the extractor
  afterwards. The extractors of the window are \<open>FPExtractor(name, fmt)\<close> for the
  entries of \<open>FP_CONFIG\<close>.
\<close>

definition caught :: "error \<Rightarrow> error + string" where
  "caught e = (case e of ValueError msg \<Rightarrow> Inr msg | _ \<Rightarrow> Inl e)"

definition update_bits :: "FPExtractor \<Rightarrow> string \<Rightarrow> (error + string) \<times> FPExtractor" where
  "update_bits extractor input_str =
     (let fp_str = lower (replace_underscore (strip input_str))
      in if length fp_str > 2 \<and> (startswith fp_str ''0x'' \<or> startswith fp_str ''0b'')
         then (case extract_fp_str extractor fp_str of
                 (Some e, ex') \<Rightarrow> (caught e, ex')
               | (None, ex') \<Rightarrow>
                   (case (if startswith fp_str ''0x''
                          then hex_str_to_bin (drop 2 fp_str) (width (fp_fmt ex'))
                          else Inr (let bin_str = zfill (drop 2 fp_str) (width (fp_fmt ex'))
                                    in drop (length bin_str - width (fp_fmt ex')) bin_str)) of
                      Inl e \<Rightarrow> (caught e, ex')
                    | Inr bin_str \<Rightarrow>
                        (case get_fp_expression ex' of
                           Inl e \<Rightarrow> (caught e, ex')
                         | Inr result_text \<Rightarrow> (Inr result_text, ex'))))
         else (Inr ''Please start with [0x] or [0b]'', extractor))"

definition catalog_extractors :: "FPExtractor list" where
  "catalog_extractors = map (\<lambda>(name, fmt). FPExtractor_init name fmt) FP_CONFIG"

section \<open>Auxiliary facts about the primitives and the extraction\<close>

lemma bin_str_check_iff: "bin_str_check s \<longleftrightarrow> set s \<subseteq> {CHR ''0'', CHR ''1''}"
  by (auto simp: bin_str_check_def list_all_iff)

lemma lower_bin: "bin_str_check s \<Longrightarrow> lower s = s"
  unfolding lower_def bin_str_check_iff by (induction s) (auto simp: lower_char_def)

lemma zfill_bin: "bin_str_check s \<Longrightarrow> zfill s w = replicate (w - length s) (CHR ''0'') @ s"
  by (cases s) (auto simp: zfill_def bin_str_check_iff)

lemma slice_down_rev:
  "a < length s \<Longrightarrow> slice_down (rev s) a b = take (Suc a - Suc b) (drop (length s - Suc a) s)"
  by (simp add: slice_down_def take_rev drop_rev)

lemma slice_down_all_rev:
  "a < length s \<Longrightarrow> slice_down_all (rev s) a = drop (length s - Suc a) s"
  by (simp add: slice_down_all_def take_rev)

lemma extract_sign_rev:
  "length s = width f \<Longrightarrow> 0 < width f \<Longrightarrow> extract_sign (rev s) f = Inr [hd s]"
  by (cases s) (auto simp: extract_sign_def py_index_def Let_def rev_nth nth_append)

lemma extract_exponent_rev:
  "length s = width f \<Longrightarrow> 1 < snd (exponent f) \<Longrightarrow> fst (exponent f) < width f \<Longrightarrow>
   extract_exponent (rev s) f =
     Inr (take (Suc (fst (exponent f)) - snd (exponent f)) (drop (width f - Suc (fst (exponent f))) s))"
  by (simp add: extract_exponent_def Let_def slice_down_rev)

lemma extract_mantissa_rev:
  "length s = width f \<Longrightarrow> fst (mantissa f) < width f \<Longrightarrow>
   extract_mantissa (rev s) f =
     Inr (take (Suc (fst (mantissa f)) - snd (mantissa f)) (drop (width f - Suc (fst (mantissa f))) s))"
  by (simp add: extract_mantissa_def Let_def slice_down_rev slice_down_all_rev)

lemma extract_fields_rev:
  assumes "length s = width f" "0 < width f" "1 < snd (exponent f)"
    "fst (exponent f) < width f" "fst (mantissa f) < width f"
  shows "extract_fields (rev s) f =
     Inr (Fp [hd s]
            (take (Suc (fst (exponent f)) - snd (exponent f)) (drop (width f - Suc (fst (exponent f))) s))
            (take (Suc (fst (mantissa f)) - snd (mantissa f)) (drop (width f - Suc (fst (mantissa f))) s)))"
  using assms by (simp add: extract_fields_def extract_sign_rev extract_exponent_rev extract_mantissa_rev)

lemma bin_extractor_long:
  assumes "bin_str_check s" "width f \<le> length s"
  shows "bin_extractor s f = extract_fields (rev (drop (length s - width f) s)) f"
  using assms by (simp add: bin_extractor_def Let_def zfill_def)

lemma bin_extractor_short:
  assumes "bin_str_check s" "length s \<le> width f"
  shows "bin_extractor s f = extract_fields (rev (replicate (width f - length s) (CHR ''0'') @ s)) f"
  using assms by (simp add: bin_extractor_def Let_def zfill_bin)

lemma catalog_cases:
  assumes "(name, f) \<in> set FP_CONFIG"
  shows "name = ''FP64'' \<and> f = FPFormat 64 (62, 52) (51, 0)
      \<or> name = ''FP32'' \<and> f = FPFormat 32 (30, 23) (22, 0)
      \<or> name = ''TF32'' \<and> f = FPFormat 32 (30, 23) (22, 13)
      \<or> name = ''FP16'' \<and> f = FPFormat 16 (14, 10) (9, 0)
      \<or> name = ''BF16'' \<and> f = FPFormat 16 (14, 7) (6, 0)
      \<or> name = ''FP8_E4M3'' \<and> f = FPFormat 8 (6, 3) (2, 0)
      \<or> name = ''FP8_E5M2'' \<and> f = FPFormat 8 (6, 2) (1, 0)"
  using assms unfolding FP_CONFIG_def
  by (simp only: list.set insert_iff empty_iff simp_thms prod.inject)

lemma catalog_layout:
  assumes "(name, f) \<in> set FP_CONFIG"
  shows "0 < width f \<and> 1 < snd (exponent f) \<and> fst (exponent f) < width f \<and> fst (mantissa f) < width f
     \<and> Suc (fst (exponent f)) = width f - 1 \<and> Suc (fst (mantissa f)) = snd (exponent f)
     \<and> snd (mantissa f) \<le> fst (mantissa f) \<and> snd (exponent f) \<le> fst (exponent f)"
  using catalog_cases [OF assms] by (elim disjE conjE) (simp_all add: FPFormat_def)

lemma digits_value_snoc:
  "digits_value b (s @ [c]) = digits_value b s * b + the (digit_val c)"
  by (simp add: digits_value_def)

lemma digit_val_bits [simp]: "digit_val (CHR ''0'') = Some 0" "digit_val (CHR ''1'') = Some 1"
  by (simp_all add: digit_val_def)

lemma py_int_bin:
  "bin_str_check s \<Longrightarrow> s \<noteq> [] \<Longrightarrow> py_int s 2 = Inr (digits_value 2 s)"
  by (auto simp: py_int_def bin_str_check_iff list_all_iff is_digit_of_def)

lemma digits_value_zero_iff:
  "bin_str_check s \<Longrightarrow> digits_value 2 s = 0 \<longleftrightarrow> s = replicate (length s) (CHR ''0'')"
proof (induction s rule: rev_induct)
  case Nil
  then show ?case by (simp add: digits_value_def)
next
  case (snoc c s)
  then have b: "bin_str_check s" and c: "c = CHR ''0'' \<or> c = CHR ''1''"
    by (auto simp: bin_str_check_iff)
  have "replicate (length (s @ [c])) (CHR ''0'') = replicate (length s) (CHR ''0'') @ [CHR ''0'']"
    by (simp add: replicate_append_same)
  with snoc.IH [OF b] c show ?case
    by (auto simp: digits_value_snoc)
qed

lemma digits_value_bound:
  "bin_str_check s \<Longrightarrow> digits_value 2 s < 2 ^ length s"
proof (induction s rule: rev_induct)
  case Nil
  then show ?case by (simp add: digits_value_def)
next
  case (snoc c s)
  then have b: "bin_str_check s" and c: "c = CHR ''0'' \<or> c = CHR ''1''"
    by (auto simp: bin_str_check_iff)
  from snoc.IH [OF b] c show ?case
    by (auto simp: digits_value_snoc)
qed

lemma digits_value_ones_iff:
  "bin_str_check s \<Longrightarrow> Suc (digits_value 2 s) = 2 ^ length s \<longleftrightarrow> s = replicate (length s) (CHR ''1'')"
proof (induction s rule: rev_induct)
  case Nil
  then show ?case by (simp add: digits_value_def)
next
  case (snoc c s)
  then have b: "bin_str_check s" and c: "c = CHR ''0'' \<or> c = CHR ''1''"
    by (auto simp: bin_str_check_iff)
  have "replicate (length (s @ [c])) (CHR ''1'') = replicate (length s) (CHR ''1'') @ [CHR ''1'']"
    by (simp add: replicate_append_same)
  then have r: "s @ [c] = replicate (length (s @ [c])) (CHR ''1'')
      \<longleftrightarrow> s = replicate (length s) (CHR ''1'') \<and> c = CHR ''1''"
    by (simp only: append1_eq_conv)
  have lt: "digits_value 2 s < 2 ^ length s" by (rule digits_value_bound [OF b])
  have v: "digits_value 2 (s @ [c]) = digits_value 2 s * 2 + the (digit_val c)"
    by (rule digits_value_snoc)
  have p: "2 ^ length (s @ [c]) = 2 * (2::nat) ^ length s" by simp
  from c show ?case
  proof
    assume c0: "c = CHR ''0''"
    have "Suc (digits_value 2 s * 2) \<noteq> 2 * 2 ^ length s" by presburger
    with c0 show ?thesis unfolding r v p by simp
  next
    assume c1: "c = CHR ''1''"
    have "Suc (Suc (digits_value 2 s * 2)) = 2 * 2 ^ length s \<longleftrightarrow> Suc (digits_value 2 s) = 2 ^ length s"
      by presburger
    with c1 snoc.IH [OF b] show ?thesis unfolding r v p by simp
  qed
qed

lemma bin_str_check_take: "bin_str_check s \<Longrightarrow> bin_str_check (take n s)"
  by (auto simp: bin_str_check_iff dest: in_set_takeD)

lemma bin_str_check_drop: "bin_str_check s \<Longrightarrow> bin_str_check (drop n s)"
  by (auto simp: bin_str_check_iff dest: in_set_dropD)

lemma bin_str_check_replicate: "bin_str_check (replicate n (CHR ''0''))" "bin_str_check (replicate n (CHR ''1''))"
  by (auto simp: bin_str_check_iff)

lemma bin_str_check_append: "bin_str_check (s @ t) \<longleftrightarrow> bin_str_check s \<and> bin_str_check t"
  by (auto simp: bin_str_check_iff)

lemma get_fp_expression_total:
  assumes "self_exponent st = Some e" "self_mantissa st = Some m"
    "bin_str_check e" "bin_str_check m" "e \<noteq> []" "m \<noteq> []"
  shows "\<exists>txt. get_fp_expression st = Inr txt"
  using assms
  by (simp add: get_fp_expression_def get_exponent_value_def get_mantissa_value_def
      int_of_field_def py_int_bin Let_def)

lemma lower_examples:
  "lower ''0xg1'' = ''0xg1''" "lower ''0z10'' = ''0z10''" "lower ''0x1_2'' = ''0x1_2''"
  "lower ''0x'' = ''0x''" "lower ''0b'' = ''0b''" "lower ''0x7E'' = ''0x7e''" "lower ''0x7F'' = ''0x7f''"
  "lower ''0x12'' = ''0x12''"
  by code_simp+

text \<open>
  C8: extracting \<open>0xg1\<close> fails with the invalid-digit ValueError that carries the digit
  string \<open>g1\<close>, extracting \<open>0z10\<close> fails with the missing-prefix ValueError, and in
  both cases the extractor object is left exactly as it was, whatever its format and
  its current fields.
\<close>

theorem C8_failed_extraction_keeps_state:
  "extract_fp_str st ''0xg1'' = (Some (ValueError ''Invalid Hex Value: [g1]''), st)
   \<and> extract_fp_str st ''0z10'' = (Some (ValueError ''Input must start with 0x or 0b: [0z10]''), st)"
  by (simp add: extract_fp_str_def lower_examples startswith_def extract_hex_def
      hex_extractor_def hex_str_check_def store_fields_def lower_def lower_char_def)

lemma digit_char_bits [simp]: "digit_char 0 = CHR ''0''" "digit_char (Suc 0) = CHR ''1''"
  by (simp_all add: digit_char_def)

lemma bin_digits_check: "bin_str_check (bin_digits n)"
proof (induction n rule: bin_digits.induct)
  case (1 n)
  show ?case
  proof (cases "n < 2")
    case True
    then have "n = 0 \<or> n = Suc 0" by arith
    then show ?thesis
      by (subst bin_digits.simps) (auto simp: bin_str_check_iff)
  next
    case False
    have "n mod 2 = 0 \<or> n mod 2 = Suc 0" by arith
    with False 1 show ?thesis
      by (subst bin_digits.simps) (auto simp: bin_str_check_iff)
  qed
qed

lemma bin_digits_nonempty: "bin_digits n \<noteq> []"
  by (subst bin_digits.simps) simp

lemma bin_digits_length: "n < 2 ^ w \<Longrightarrow> 0 < w \<Longrightarrow> length (bin_digits n) \<le> w"
proof (induction n arbitrary: w rule: bin_digits.induct)
  case (1 n)
  show ?case
  proof (cases "n < 2")
    case True
    with 1 show ?thesis by (subst bin_digits.simps) simp
  next
    case False
    from False "1.prems" have "w \<noteq> Suc 0" by auto
    with "1.prems" obtain v where w: "w = Suc v" and v: "0 < v" by (cases w) auto
    from "1.prems" w have "n div 2 < 2 ^ v" by auto
    from "1.IH" [OF False this v] False w show ?thesis
      by (subst bin_digits.simps) simp
  qed
qed

lemma zfill_bin_digits:
  assumes "n < 2 ^ w" "0 < w"
  shows "length (zfill (bin_digits n) w) = w" "bin_str_check (zfill (bin_digits n) w)"
  using bin_digits_length [OF assms] bin_digits_check [of n]
  by (simp_all add: zfill_bin bin_str_check_append bin_str_check_replicate)

lemma bin_extractor_exact:
  assumes "bin_str_check s" "length s = width f" "0 < width f" "1 < snd (exponent f)"
    "fst (exponent f) < width f" "fst (mantissa f) < width f"
  shows "bin_extractor s f =
     Inr (Fp [hd s]
            (take (Suc (fst (exponent f)) - snd (exponent f)) (drop (width f - Suc (fst (exponent f))) s))
            (take (Suc (fst (mantissa f)) - snd (mantissa f)) (drop (width f - Suc (fst (mantissa f))) s)))"
  using assms by (simp add: bin_extractor_long extract_fields_rev)

lemma bin_extractor_catalog:
  assumes "(name, f) \<in> set FP_CONFIG" "bin_str_check s" "length s = width f"
  shows "bin_extractor s f =
     Inr (Fp [hd s]
            (take (width f - 1 - snd (exponent f)) (drop 1 s))
            (take (snd (exponent f) - snd (mantissa f)) (drop (width f - snd (exponent f)) s)))"
proof -
  note l = catalog_layout [OF assms(1)]
  have "width f - Suc (fst (exponent f)) = 1" using l by arith
  with bin_extractor_exact [of s f] assms l show ?thesis by simp
qed

lemma fields_concat:
  assumes "length s = w" "0 < w" "el < w" "ml \<le> el"
  shows "[hd s] @ take (w - 1 - el) (drop 1 s) @ take (el - ml) (drop (w - el) s) = take (w - ml) s"
proof -
  from assms have h: "[hd s] = take 1 s" by (cases s) auto
  from assms have e1: "w - el = 1 + (w - 1 - el)" and e2: "w - ml = (w - el) + (el - ml)"
    by arith+
  have a: "take (w - el) s = take 1 s @ take (w - 1 - el) (drop 1 s)"
    by (subst e1) (rule take_add)
  have b: "take (w - ml) s = take (w - el) s @ take (el - ml) (drop (w - el) s)"
    by (subst e2) (rule take_add)
  show ?thesis unfolding h b a by simp
qed

text \<open>
  C1: the claim asks for \<open>+Zero\<close> on the all-zero pattern and \<open>-Zero\<close> on the pattern
  with only the sign bit set, for every catalog format. For FP8_E4M3 the code answers
  the other way round: \<open>get_e4m3_expression\<close> tests \<open>sign == "1"\<close> for \<open>+Zero\<close>,
  while the general path of \<open>get_fp_expression\<close> tests \<open>is_positive\<close>.
\<close>

theorem C1_e4m3_zero_sign_swapped:
  "(''FP8_E4M3'', FPFormat 8 (6, 3) (2, 0)) \<in> set FP_CONFIG
   \<and> get_fp_expression (snd (extract_fp_str (FPExtractor_init ''FP8_E4M3'' (FPFormat 8 (6, 3) (2, 0))) ''0x00''))
       = Inr ''-Zero''
   \<and> get_fp_expression (snd (extract_fp_str (FPExtractor_init ''FP8_E4M3'' (FPFormat 8 (6, 3) (2, 0))) ''0x80''))
       = Inr ''+Zero''
   \<and> get_fp_expression (snd (extract_fp_str (FPExtractor_init ''FP8_E5M2'' (FPFormat 8 (6, 2) (1, 0))) ''0x00''))
       = Inr ''+Zero''
   \<and> get_fp_expression (snd (extract_fp_str (FPExtractor_init ''FP8_E5M2'' (FPFormat 8 (6, 2) (1, 0))) ''0x80''))
       = Inr ''-Zero''"
  by code_simp

lemma extract_bin_catalog:
  assumes "(name, f) \<in> set FP_CONFIG" "fp_fmt st = f" "bin_str_check s" "length s = width f"
  shows "extract_bin st s =
     (None, st\<lparr>self_sign := Some [hd s],
               self_exponent := Some (take (width f - 1 - snd (exponent f)) (drop 1 s)),
               self_mantissa := Some (take (snd (exponent f) - snd (mantissa f))
                                        (drop (width f - snd (exponent f)) s))\<rparr>)"
  using bin_extractor_catalog [OF assms(1,3,4)] assms(2)
  by (simp add: extract_bin_def store_fields_def)

lemma extract_fp_str_bin:
  "bin_str_check s \<Longrightarrow> extract_fp_str st (''0b'' @ s) = extract_bin st s"
  by (simp add: extract_fp_str_def lower_def startswith_def lower_bin [unfolded lower_def]
      lower_char_def)

text \<open>
  C10: every catalog format has an exponent lsb index above 1, so the assertion of
  \<open>extract_exponent\<close> holds; on every bit string of the format's width the extraction
  returns exponent bits and mantissa bits of the declared lengths, and classifying the
  extracted fields returns a text (it raises nothing).
\<close>

theorem C10_extraction_and_classification_total:
  assumes "(name, f) \<in> set FP_CONFIG" "fmt_name st = name" "fp_fmt st = f"
    "length s = width f" "bin_str_check s"
  shows "1 < snd (exponent f)
     \<and> (\<exists>fp. bin_extractor s f = Inr fp
           \<and> length (fp_exponent fp) = fst (exponent f) - snd (exponent f) + 1
           \<and> length (fp_mantissa fp) = fst (mantissa f) - snd (mantissa f) + 1)
     \<and> (\<exists>st' txt. extract_bin st s = (None, st') \<and> get_fp_expression st' = Inr txt)"
proof -
  note l = catalog_layout [OF assms(1)]
  note ex = bin_extractor_catalog [OF assms(1,5,4)]
  let ?e = "take (width f - 1 - snd (exponent f)) (drop 1 s)"
  let ?m = "take (snd (exponent f) - snd (mantissa f)) (drop (width f - snd (exponent f)) s)"
  have le: "length ?e = fst (exponent f) - snd (exponent f) + 1"
    using l assms(4) by auto
  have lm: "length ?m = fst (mantissa f) - snd (mantissa f) + 1"
    using l assms(4) by auto
  have ne: "?e \<noteq> []" "?m \<noteq> []" using le lm by auto
  have chk: "bin_str_check ?e" "bin_str_check ?m"
    using assms(5) by (simp_all add: bin_str_check_take bin_str_check_drop)
  let ?st = "st\<lparr>self_sign := Some [hd s], self_exponent := Some ?e, self_mantissa := Some ?m\<rparr>"
  have "\<exists>txt. get_fp_expression ?st = Inr txt"
    by (rule get_fp_expression_total [OF _ _ chk ne]) simp_all
  moreover have "extract_bin st s = (None, ?st)"
    by (rule extract_bin_catalog [OF assms(1,3,5,4)])
  ultimately show ?thesis using l ex le lm by simp
qed

theorem C10_extraction_and_classification_total_witness:
  "(''FP16'', FPFormat 16 (14, 10) (9, 0)) \<in> set FP_CONFIG
   \<and> length ''1011110000000001'' = 16 \<and> bin_str_check ''1011110000000001''
   \<and> (\<exists>fp. bin_extractor ''1011110000000001'' (FPFormat 16 (14, 10) (9, 0)) = Inr fp
           \<and> length (fp_exponent fp) = 5 \<and> length (fp_mantissa fp) = 10)
   \<and> (\<exists>st' txt. extract_bin (FPExtractor_init ''FP16'' (FPFormat 16 (14, 10) (9, 0))) ''1011110000000001''
                     = (None, st') \<and> get_fp_expression st' = Inr txt)"
proof -
  have m: "(''FP16'', FPFormat 16 (14, 10) (9, 0)) \<in> set FP_CONFIG"
    by (simp add: FP_CONFIG_def)
  have c: "bin_str_check ''1011110000000001''" by (simp add: bin_str_check_def)
  have n: "fmt_name (FPExtractor_init ''FP16'' (FPFormat 16 (14, 10) (9, 0))) = ''FP16''"
    and f: "fp_fmt (FPExtractor_init ''FP16'' (FPFormat 16 (14, 10) (9, 0))) = FPFormat 16 (14, 10) (9, 0)"
    by (simp_all add: FPExtractor_init_def)
  have w: "length ''1011110000000001'' = width (FPFormat 16 (14, 10) (9, 0))"
    by (simp add: FPFormat_def)
  show ?thesis
    using m c C10_extraction_and_classification_total [OF m n f w c]
    by (simp add: FPFormat_def)
qed

lemma str_of_nat_16: "str_of_nat 16 = ''16''"
  by code_simp

lemma lower_Nil: "lower [] = []"
  by (simp add: lower_def)

lemma take_drop_replicate: "k + d \<le> w \<Longrightarrow> take k (drop d (replicate w c)) = replicate k c"
  by (simp add: min_def)

lemma bin_extractor_pad:
  assumes "bin_str_check s" "length s \<le> width f"
  shows "bin_extractor s f = bin_extractor (replicate (width f - length s) (CHR ''0'') @ s) f"
proof -
  let ?p = "replicate (width f - length s) (CHR ''0'') @ s"
  have c: "bin_str_check ?p" using assms(1) by (simp add: bin_str_check_append bin_str_check_replicate)
  have l: "width f \<le> length ?p" using assms(2) by simp
  have "length ?p - width f = 0" using assms(2) by simp
  with bin_extractor_long [OF c l] bin_extractor_short [OF assms] show ?thesis by simp
qed

lemma extract_empty_bin:
  assumes "(name, f) \<in> set FP_CONFIG" "fp_fmt st = f"
  shows "extract_fp_str st ''0b'' =
     (None, st\<lparr>self_sign := Some ''0'',
               self_exponent := Some (replicate (fst (exponent f) - snd (exponent f) + 1) (CHR ''0'')),
               self_mantissa := Some (replicate (fst (mantissa f) - snd (mantissa f) + 1) (CHR ''0''))\<rparr>)"
proof -
  note l = catalog_layout [OF assms(1)]
  let ?z = "replicate (width f) (CHR ''0'')"
  have e: "bin_str_check []" by (simp add: bin_str_check_def)
  have "bin_extractor [] f = bin_extractor ?z f"
    using bin_extractor_pad [OF e, of f] by simp
  also have "\<dots> = Inr (Fp [hd ?z]
            (take (width f - 1 - snd (exponent f)) (drop 1 ?z))
            (take (snd (exponent f) - snd (mantissa f)) (drop (width f - snd (exponent f)) ?z)))"
    by (rule bin_extractor_catalog [OF assms(1)]) (simp_all add: bin_str_check_replicate)
  also have "[hd ?z] = ''0''" using l by (cases "width f") auto
  also have "take (width f - 1 - snd (exponent f)) (drop 1 ?z)
        = replicate (width f - 1 - snd (exponent f)) (CHR ''0'')"
    using l by (intro take_drop_replicate) arith
  also have "width f - 1 - snd (exponent f) = fst (exponent f) - snd (exponent f) + 1"
    using l by arith
  also have "take (snd (exponent f) - snd (mantissa f)) (drop (width f - snd (exponent f)) ?z)
        = replicate (snd (exponent f) - snd (mantissa f)) (CHR ''0'')"
    using l by (intro take_drop_replicate) arith
  also have "snd (exponent f) - snd (mantissa f) = fst (mantissa f) - snd (mantissa f) + 1"
    using l by arith
  finally have "bin_extractor [] f = Inr (Fp ''0''
        (replicate (fst (exponent f) - snd (exponent f) + 1) (CHR ''0''))
        (replicate (fst (mantissa f) - snd (mantissa f) + 1) (CHR ''0'')))" .
  then show ?thesis
    using assms(2) extract_fp_str_bin [OF e, of st]
    by (simp add: extract_bin_def store_fields_def)
qed

lemma extract_empty_hex:
  "extract_fp_str st ''0x'' =
     (Some (ValueError (''invalid literal for int() with base 16: '' @ [CHR 0x27, CHR 0x27])), st)"
  by (simp add: extract_fp_str_def lower_examples startswith_def extract_hex_def
      hex_extractor_def hex_str_check_def lower_Nil hex_str_to_bin_def py_int_def
      str_of_nat_16 store_fields_def)

text \<open>
  C2, as claimed, fails for the hexadecimal prefix: on the bare prefix \<open>0x\<close> the
  extraction raises the ValueError of \<open>int("", 16)\<close> for the 32-bit format.
\<close>

theorem C2_bare_hex_prefix_counterexample:
  "extract_fp_str (FPExtractor_init ''FP32'' (FPFormat 32 (30, 23) (22, 0))) ''0x''
     = (Some (ValueError (''invalid literal for int() with base 16: '' @ [CHR 0x27, CHR 0x27])),
        FPExtractor_init ''FP32'' (FPFormat 32 (30, 23) (22, 0)))"
  by (rule extract_empty_hex)

lemma hex_extractor_e4m3_examples:
  "hex_extractor ''7e'' (FPFormat 8 (6, 3) (2, 0)) = Inr (Fp ''0'' ''1111'' ''110'')"
  "hex_extractor ''7f'' (FPFormat 8 (6, 3) (2, 0)) = Inr (Fp ''0'' ''1111'' ''111'')"
  by code_simp+

lemma str_of_int_8: "str_of_int 8 = ''8''"
  by code_simp

lemma digits_value_examples:
  "digits_value 2 ''1111'' = 15" "digits_value 2 ''110'' = 6" "digits_value 2 ''111'' = 7"
  "digits_value 2 ''11111111'' = 255"
  by (simp_all add: digits_value_def)

lemma e4m3_expression:
  assumes "fmt_name st = ''FP8_E4M3''" "fp_fmt st = FPFormat 8 (6, 3) (2, 0)"
    "self_exponent st = Some e" "self_mantissa st = Some m"
    "bin_str_check e" "bin_str_check m" "e \<noteq> []" "m \<noteq> []"
  shows "get_fp_expression st =
     Inr (get_e4m3_expression st (int (digits_value 2 e) - 7) (digits_value 2 m) (self_sign st))"
  using assms
  by (simp add: get_fp_expression_def get_exponent_value_def get_mantissa_value_def
      int_of_field_def py_int_bin Let_def FPFormat_def)

lemma e4m3_nan_iff:
  "get_e4m3_expression st ev mv sg = ''NaN'' \<longleftrightarrow> ev = 8 \<and> mv = 7"
  by (simp add: get_e4m3_expression_def)

lemma e4m3_nan_fields:
  assumes "fmt_name st = ''FP8_E4M3''" "fp_fmt st = FPFormat 8 (6, 3) (2, 0)"
    "self_exponent st = Some e" "self_mantissa st = Some m"
    "bin_str_check e" "bin_str_check m" "length e = 4" "length m = 3"
  shows "get_fp_expression st = Inr ''NaN'' \<longleftrightarrow> e = ''1111'' \<and> m = ''111''"
proof -
  have ne: "e \<noteq> []" "m \<noteq> []" using assms(7,8) by auto
  have r4: "replicate 4 (CHR ''1'') = ''1111''" and r3: "replicate 3 (CHR ''1'') = ''111''"
    by (simp_all add: numeral_eq_Suc)
  have e: "Suc (digits_value 2 e) = 16 \<longleftrightarrow> e = ''1111''"
    using digits_value_ones_iff [OF assms(5)] assms(7) r4 by simp
  have m: "Suc (digits_value 2 m) = 8 \<longleftrightarrow> m = ''111''"
    using digits_value_ones_iff [OF assms(6)] assms(8) r3 by simp
  have "get_fp_expression st = Inr ''NaN''
      \<longleftrightarrow> int (digits_value 2 e) - 7 = 8 \<and> digits_value 2 m = 7"
    unfolding e4m3_expression [OF assms(1-6) ne] by (simp only: sum.inject e4m3_nan_iff)
  also have "\<dots> \<longleftrightarrow> Suc (digits_value 2 e) = 16 \<and> Suc (digits_value 2 m) = 8"
    by auto
  finally show ?thesis unfolding e m .
qed

text \<open>
  C3: for the FP8_E4M3 extractor, \<open>0x7E\<close> is classified Normal (exponent 8, mantissa
  110), \<open>0x7F\<close> is classified NaN, and among all 8-bit patterns exactly those whose low
  seven bits are all ones (\<open>0x7F\<close> and \<open>0xFF\<close>) are classified NaN.
\<close>

theorem C3_e4m3_nan_only_all_ones:
  assumes "fmt_name st = ''FP8_E4M3''" "fp_fmt st = FPFormat 8 (6, 3) (2, 0)"
    "length s = 8" "bin_str_check s"
  shows "get_fp_expression (snd (extract_fp_str st ''0x7E''))
           = Inr ''Normal: sign:0, exponent:8, mantissa: 1.110''
     \<and> get_fp_expression (snd (extract_fp_str st ''0x7F'')) = Inr ''NaN''
     \<and> fst (extract_fp_str st (''0b'' @ s)) = None
     \<and> (get_fp_expression (snd (extract_fp_str st (''0b'' @ s))) = Inr ''NaN''
          \<longleftrightarrow> drop 1 s = ''1111111'')"
proof -
  have cat: "(''FP8_E4M3'', FPFormat 8 (6, 3) (2, 0)) \<in> set FP_CONFIG"
    by (simp add: FP_CONFIG_def)
  have a: "get_fp_expression (snd (extract_fp_str st ''0x7E''))
           = Inr ''Normal: sign:0, exponent:8, mantissa: 1.110''"
    using assms(1,2)
    by (simp add: extract_fp_str_def lower_examples startswith_def extract_hex_def
        hex_extractor_e4m3_examples store_fields_def e4m3_expression [where e = "''1111''" and m = "''110''"]
        bin_str_check_def digits_value_examples get_e4m3_expression_def str_of_int_8 fmt_field_def)
  have b: "get_fp_expression (snd (extract_fp_str st ''0x7F'')) = Inr ''NaN''"
    using assms(1,2)
    by (simp add: extract_fp_str_def lower_examples startswith_def extract_hex_def
        hex_extractor_e4m3_examples store_fields_def e4m3_expression [where e = "''1111''" and m = "''111''"]
        bin_str_check_def digits_value_examples get_e4m3_expression_def)
  define e where "e = take 4 (drop 1 s)"
  define m where "m = drop 5 s"
  have w: "length s = width (FPFormat 8 (6, 3) (2, 0))" using assms(3) by (simp add: FPFormat_def)
  have "extract_bin st s =
      (None, st\<lparr>self_sign := Some [hd s], self_exponent := Some e, self_mantissa := Some m\<rparr>)"
    using extract_bin_catalog [OF cat assms(2) assms(4) w] assms(3)
    by (simp add: FPFormat_def e_def m_def)
  then have ex: "extract_fp_str st (''0b'' @ s) =
      (None, st\<lparr>self_sign := Some [hd s], self_exponent := Some e, self_mantissa := Some m\<rparr>)"
    by (simp only: extract_fp_str_bin [OF assms(4)])
  have len: "length e = 4" "length m = 3" using assms(3) by (simp_all add: e_def m_def)
  have chk: "bin_str_check e" "bin_str_check m"
    using assms(4) by (simp_all add: e_def m_def bin_str_check_take bin_str_check_drop)
  have split: "drop 1 s = e @ m"
    using append_take_drop_id [of 4 "drop 1 s"] by (simp add: e_def m_def)
  have "get_fp_expression (snd (extract_fp_str st (''0b'' @ s))) = Inr ''NaN''
      \<longleftrightarrow> e = ''1111'' \<and> m = ''111''"
    unfolding ex snd_conv
    by (rule e4m3_nan_fields [where e = e and m = m]) (use assms chk len in simp_all)
  also have "\<dots> \<longleftrightarrow> e @ m = ''1111'' @ ''111''"
    by (rule append_eq_append_conv [symmetric]) (simp add: len)
  also have "\<dots> \<longleftrightarrow> drop 1 s = ''1111111''"
    unfolding split by simp
  finally show ?thesis using a b ex by simp
qed

theorem C3_e4m3_nan_only_all_ones_witness:
  "length ''11111111'' = 8 \<and> bin_str_check ''11111111''
   \<and> get_fp_expression (snd (extract_fp_str (FPExtractor_init ''FP8_E4M3'' (FPFormat 8 (6, 3) (2, 0))) ''0x7E''))
           = Inr ''Normal: sign:0, exponent:8, mantissa: 1.110''
   \<and> get_fp_expression (snd (extract_fp_str (FPExtractor_init ''FP8_E4M3'' (FPFormat 8 (6, 3) (2, 0))) ''0x7F''))
           = Inr ''NaN''
   \<and> get_fp_expression (snd (extract_fp_str (FPExtractor_init ''FP8_E4M3'' (FPFormat 8 (6, 3) (2, 0))) ''0b11111111''))
           = Inr ''NaN''"
proof -
  have n: "fmt_name (FPExtractor_init ''FP8_E4M3'' (FPFormat 8 (6, 3) (2, 0))) = ''FP8_E4M3''"
    and f: "fp_fmt (FPExtractor_init ''FP8_E4M3'' (FPFormat 8 (6, 3) (2, 0))) = FPFormat 8 (6, 3) (2, 0)"
    by (simp_all add: FPExtractor_init_def)
  have l: "length ''11111111'' = 8" by simp
  have c: "bin_str_check ''11111111''" by (simp add: bin_str_check_def)
  show ?thesis
    using l c C3_e4m3_nan_only_all_ones [OF n f l c] by simp
qed

lemma replicate_23: "replicate 23 (CHR ''0'') = ''00000000000000000000000''"
  by (simp add: numeral_eq_Suc)

text \<open>
  C5: for the FP32 extractor, a 32-bit pattern with sign bit \<open>c\<close>, exponent field
  \<open>11111111\<close> and mantissa field \<open>m\<close> is classified \<open>+Inf\<close> (sign 0) or \<open>-Inf\<close>
  (sign 1) when \<open>m\<close> is all zeros, and \<open>NaN\<close> when \<open>m\<close> has a one.
\<close>

theorem C5_fp32_max_exponent:
  assumes "fmt_name st = ''FP32''" "fp_fmt st = FPFormat 32 (30, 23) (22, 0)"
    "c = CHR ''0'' \<or> c = CHR ''1''" "bin_str_check m" "length m = 23"
  shows "fst (extract_fp_str st (''0b'' @ c # ''11111111'' @ m)) = None
     \<and> get_fp_expression (snd (extract_fp_str st (''0b'' @ c # ''11111111'' @ m)))
         = Inr (if m = ''00000000000000000000000''
                then (if c = CHR ''0'' then ''+Inf'' else ''-Inf'')
                else ''NaN'')"
proof -
  have cat: "(''FP32'', FPFormat 32 (30, 23) (22, 0)) \<in> set FP_CONFIG"
    by (simp add: FP_CONFIG_def)
  define s where "s = c # ''11111111'' @ m"
  have chk: "bin_str_check s"
    using assms(3,4) by (auto simp: s_def bin_str_check_iff)
  have w: "length s = width (FPFormat 32 (30, 23) (22, 0))"
    using assms(5) by (simp add: s_def FPFormat_def)
  have "extract_bin st s =
      (None, st\<lparr>self_sign := Some [c], self_exponent := Some ''11111111'', self_mantissa := Some m\<rparr>)"
    using extract_bin_catalog [OF cat assms(2) chk w] assms(5)
    by (simp add: FPFormat_def s_def)
  then have ex: "extract_fp_str st (''0b'' @ s) =
      (None, st\<lparr>self_sign := Some [c], self_exponent := Some ''11111111'', self_mantissa := Some m\<rparr>)"
    by (simp only: extract_fp_str_bin [OF chk])
  have ne: "m \<noteq> []" using assms(5) by auto
  have z: "digits_value 2 m = 0 \<longleftrightarrow> m = ''00000000000000000000000''"
    using digits_value_zero_iff [OF assms(4)] assms(5) replicate_23 by simp
  have e: "py_int ''11111111'' 2 = Inr 255"
    by (simp add: py_int_bin bin_str_check_def digits_value_examples)
  have cls: "get_fp_expression (st\<lparr>self_sign := Some [c], self_exponent := Some ''11111111'',
                 self_mantissa := Some m\<rparr>)
      = Inr (if m = ''00000000000000000000000''
                then (if c = CHR ''0'' then ''+Inf'' else ''-Inf'')
                else ''NaN'')"
    using assms(1,2) z
    by (simp add: get_fp_expression_def get_exponent_value_def get_mantissa_value_def
        int_of_field_def e py_int_bin [OF assms(4) ne] Let_def FPFormat_def is_positive_def)
  show ?thesis using ex cls unfolding s_def by simp
qed

theorem C5_fp32_max_exponent_witness:
  "bin_str_check ''00000000000000000000100'' \<and> length ''00000000000000000000100'' = 23
   \<and> get_fp_expression (snd (extract_fp_str (FPExtractor_init ''FP32'' (FPFormat 32 (30, 23) (22, 0)))
        ''0b11111111100000000000000000000100'')) = Inr ''NaN''"
proof -
  have n: "fmt_name (FPExtractor_init ''FP32'' (FPFormat 32 (30, 23) (22, 0))) = ''FP32''"
    and f: "fp_fmt (FPExtractor_init ''FP32'' (FPFormat 32 (30, 23) (22, 0))) = FPFormat 32 (30, 23) (22, 0)"
    by (simp_all add: FPExtractor_init_def)
  have c: "CHR ''1'' = CHR ''0'' \<or> CHR ''1'' = CHR ''1''" by simp
  have b: "bin_str_check ''00000000000000000000100''" by (simp add: bin_str_check_def)
  have l: "length ''00000000000000000000100'' = 23" by simp
  show ?thesis
    using b l C5_fp32_max_exponent [OF n f c b l] by simp
qed

lemma py_int_zeros: "0 < n \<Longrightarrow> py_int (replicate n (CHR ''0'')) 2 = Inr 0"
proof -
  assume n: "0 < n"
  have c: "bin_str_check (replicate n (CHR ''0''))" by (rule bin_str_check_replicate)
  have "digits_value 2 (replicate n (CHR ''0'')) = 0"
    using digits_value_zero_iff [OF c] by simp
  with py_int_bin [OF c] n show ?thesis by simp
qed

lemma fp32_subnormal_example:
  "get_fp_expression (snd (extract_fp_str (FPExtractor_init ''FP32'' (FPFormat 32 (30, 23) (22, 0)))
        ''0b00000000000000000000000000000001''))
     = Inr ''Subnormal: sign:0, exponent:-126, mantissa: 0.00000000000000000000001''"
  by code_simp

lemma subnormal_fields:
  assumes "(name, f) \<in> set FP_CONFIG" "fmt_name st = name" "fp_fmt st = f"
    "self_sign st = Some sg"
    "self_exponent st = Some (replicate (fst (exponent f) - snd (exponent f) + 1) (CHR ''0''))"
    "self_mantissa st = Some m" "bin_str_check m"
    "length m = fst (mantissa f) - snd (mantissa f) + 1"
    "m \<noteq> replicate (length m) (CHR ''0'')"
  shows "get_fp_expression st =
     Inr (''Subnormal: sign:'' @ sg @ '', exponent:''
          @ str_of_int (0 - (2 ^ (fst (exponent f) - snd (exponent f)) - 1) + 1)
          @ '', mantissa: 0.'' @ m)"
proof -
  have ne: "m \<noteq> []" using assms(8) by auto
  have mv: "digits_value 2 m \<noteq> 0"
    using digits_value_zero_iff [OF assms(7)] assms(9) by simp
  have ez: "py_int (replicate (fst (exponent f) - snd (exponent f) + 1) (CHR ''0'')) 2 = Inr 0"
    by (rule py_int_zeros) simp
  have g: "get_exponent_value st = Inr 0" "get_mantissa_value st = Inr (digits_value 2 m)"
    using assms(5,6) ez py_int_bin [OF assms(7) ne]
    by (simp_all add: get_exponent_value_def get_mantissa_value_def int_of_field_def)
  from catalog_cases [OF assms(1)] show ?thesis
    using assms(2,3,4,6) mv
    by (elim disjE conjE)
       (simp_all add: get_fp_expression_def g Let_def FPFormat_def get_e4m3_expression_def
          fmt_field_def)
qed

text \<open>
  C7: for every catalog format, fields with an all-zero exponent and a mantissa that is
  not all zeros are classified Subnormal, the reported exponent being the effective
  exponent \<open>0 - bias\<close> plus one and the mantissa printed after \<open>0.\<close>; for FP32 the
  pattern \<open>0|00000000|00000000000000000000001\<close> gives exponent \<open>-126\<close>.
\<close>

theorem C7_subnormal_reporting:
  assumes "(name, f) \<in> set FP_CONFIG" "fmt_name st = name" "fp_fmt st = f"
    "self_sign st = Some sg"
    "self_exponent st = Some (replicate (fst (exponent f) - snd (exponent f) + 1) (CHR ''0''))"
    "self_mantissa st = Some m" "bin_str_check m"
    "length m = fst (mantissa f) - snd (mantissa f) + 1"
    "m \<noteq> replicate (length m) (CHR ''0'')"
  shows "get_fp_expression st =
     Inr (''Subnormal: sign:'' @ sg @ '', exponent:''
          @ str_of_int (0 - (2 ^ (fst (exponent f) - snd (exponent f)) - 1) + 1)
          @ '', mantissa: 0.'' @ m)
     \<and> get_fp_expression (snd (extract_fp_str (FPExtractor_init ''FP32'' (FPFormat 32 (30, 23) (22, 0)))
          ''0b00000000000000000000000000000001''))
       = Inr ''Subnormal: sign:0, exponent:-126, mantissa: 0.00000000000000000000001''"
  using subnormal_fields [OF assms] fp32_subnormal_example by (rule conjI)

lemma str_of_int_m14: "str_of_int (- 14) = ''-14''"
  by code_simp

theorem C7_subnormal_reporting_witness:
  "(''FP16'', FPFormat 16 (14, 10) (9, 0)) \<in> set FP_CONFIG
   \<and> bin_str_check ''0000000011'' \<and> length ''0000000011'' = 10
   \<and> get_fp_expression \<lparr>fmt_name = ''FP16'', fp_fmt = FPFormat 16 (14, 10) (9, 0),
        self_sign = Some ''1'', self_exponent = Some ''00000'',
        self_mantissa = Some ''0000000011''\<rparr>
       = Inr ''Subnormal: sign:1, exponent:-14, mantissa: 0.0000000011''"
proof -
  let ?st = "\<lparr>fmt_name = ''FP16'', fp_fmt = FPFormat 16 (14, 10) (9, 0),
        self_sign = Some ''1'', self_exponent = Some ''00000'',
        self_mantissa = Some ''0000000011''\<rparr>"
  have m: "(''FP16'', FPFormat 16 (14, 10) (9, 0)) \<in> set FP_CONFIG"
    by (simp add: FP_CONFIG_def)
  have h: "fmt_name ?st = ''FP16''" "fp_fmt ?st = FPFormat 16 (14, 10) (9, 0)"
    "self_sign ?st = Some ''1''" "self_mantissa ?st = Some ''0000000011''"
    by simp_all
  have e: "self_exponent ?st = Some (replicate (fst (exponent (FPFormat 16 (14, 10) (9, 0)))
              - snd (exponent (FPFormat 16 (14, 10) (9, 0))) + 1) (CHR ''0''))"
    by (simp add: FPFormat_def numeral_eq_Suc)
  have b: "bin_str_check ''0000000011''" by (simp add: bin_str_check_def)
  have l: "length ''0000000011'' = fst (mantissa (FPFormat 16 (14, 10) (9, 0)))
              - snd (mantissa (FPFormat 16 (14, 10) (9, 0))) + 1"
    by (simp add: FPFormat_def)
  have z: "''0000000011'' \<noteq> replicate (length ''0000000011'') (CHR ''0'')"
    by (simp add: numeral_eq_Suc)
  have len: "length ''0000000011'' = 10" by simp
  show ?thesis
    using m b len C7_subnormal_reporting [OF m h(1,2,3) e h(4) b l z]
    by (simp add: FPFormat_def str_of_int_m14)
qed

lemma replace_underscore_idem: "replace_underscore (replace_underscore s) = replace_underscore s"
  by (simp add: replace_underscore_def)

lemma update_bits_cleaned:
  assumes "lower (replace_underscore (strip s)) = lower (replace_underscore (strip t))"
  shows "update_bits st s = update_bits st t"
  using assms by (simp add: update_bits_def)

lemma cleaned_examples:
  "lower (replace_underscore (strip ''0x1_2'')) = ''0x12''"
  "lower (replace_underscore (strip ''0x12'')) = ''0x12''"
  by code_simp+

lemma extract_underscore:
  "extract_fp_str st ''0x1_2'' = (Some (ValueError ''Invalid Hex Value: [1_2]''), st)"
  by (simp add: extract_fp_str_def lower_examples startswith_def extract_hex_def
      hex_extractor_def hex_str_check_def store_fields_def lower_def lower_char_def)

lemma extract_12_e5m2:
  "extract_fp_str (FPExtractor_init ''FP8_E5M2'' (FPFormat 8 (6, 2) (1, 0))) ''0x12''
     = (None, \<lparr>fmt_name = ''FP8_E5M2'', fp_fmt = FPFormat 8 (6, 2) (1, 0), self_sign = Some ''0'',
               self_exponent = Some ''00100'', self_mantissa = Some ''10''\<rparr>)"
  by code_simp

text \<open>
  C9, as claimed, fails: the core operation \<open>extract_fp_str\<close> does not strip
  underscores. On \<open>0x1_2\<close> it raises the invalid-digit ValueError, while \<open>0x12\<close>
  decodes.
\<close>

theorem C9_core_keeps_underscores_counterexample:
  "extract_fp_str (FPExtractor_init ''FP8_E5M2'' (FPFormat 8 (6, 2) (1, 0))) ''0x1_2''
     = (Some (ValueError ''Invalid Hex Value: [1_2]''),
        FPExtractor_init ''FP8_E5M2'' (FPFormat 8 (6, 2) (1, 0)))
   \<and> extract_fp_str (FPExtractor_init ''FP8_E5M2'' (FPFormat 8 (6, 2) (1, 0))) ''0x12''
     = (None, \<lparr>fmt_name = ''FP8_E5M2'', fp_fmt = FPFormat 8 (6, 2) (1, 0), self_sign = Some ''0'',
               self_exponent = Some ''00100'', self_mantissa = Some ''10''\<rparr>)"
  using extract_underscore extract_12_e5m2 by (rule conjI)

lemma clip_zfill_snoc:
  assumes "bin_str_check (b @ [d])"
  shows "drop (length (zfill (b @ [d]) (Suc w)) - Suc w) (zfill (b @ [d]) (Suc w))
       = drop (length (zfill b w) - w) (zfill b w) @ [d]"
proof -
  have b: "bin_str_check b" using assms by (simp add: bin_str_check_append)
  show ?thesis
    unfolding zfill_bin [OF assms] zfill_bin [OF b] by simp
qed

lemma clip_zero:
  "drop (length (zfill (bin_digits 0) w) - w) (zfill (bin_digits 0) w) = replicate w (CHR ''0'')"
proof -
  have z: "bin_digits 0 = ''0''" by (subst bin_digits.simps) simp
  have c: "bin_str_check ''0''" by (simp add: bin_str_check_def)
  show ?thesis unfolding z zfill_bin [OF c]
    by (cases w) (simp_all add: replicate_append_same)
qed

lemma clip_rec:
  "drop (length (zfill (bin_digits n) (Suc w)) - Suc w) (zfill (bin_digits n) (Suc w))
     = drop (length (zfill (bin_digits (n div 2)) w) - w) (zfill (bin_digits (n div 2)) w)
       @ [digit_char (n mod 2)]"
proof (cases "n < 2")
  case True
  then have d: "n div 2 = 0" "n mod 2 = n" by simp_all
  from True have "n = 0 \<or> n = Suc 0" by arith
  then have c: "bin_str_check ([] @ [digit_char n])" by (auto simp: bin_str_check_iff)
  have e: "bin_digits n = [] @ [digit_char n]"
    using True by (subst bin_digits.simps) simp
  have n: "bin_str_check []" by (simp add: bin_str_check_def)
  show ?thesis
    unfolding d clip_zero unfolding e clip_zfill_snoc [OF c] zfill_bin [OF n] by simp
next
  case False
  then have e: "bin_digits n = bin_digits (n div 2) @ [digit_char (n mod 2)]"
    by (subst bin_digits.simps) simp
  have c: "bin_str_check (bin_digits (n div 2) @ [digit_char (n mod 2)])"
    using bin_digits_check [of n] unfolding e .
  show ?thesis unfolding e by (rule clip_zfill_snoc [OF c])
qed

lemma clip_mod:
  "drop (length (zfill (bin_digits n) w) - w) (zfill (bin_digits n) w)
     = drop (length (zfill (bin_digits (n mod 2 ^ w)) w) - w) (zfill (bin_digits (n mod 2 ^ w)) w)"
proof (induction w arbitrary: n)
  case 0
  show ?case by (simp add: zfill_def)
next
  case (Suc w)
  have a: "(n mod 2 ^ Suc w) div 2 = (n div 2) mod 2 ^ w"
    by (simp add: mod_mult2_eq)
  have b: "(n mod 2 ^ Suc w) mod 2 = n mod 2"
    by (simp add: mod_mult2_eq)
  show ?case
    unfolding clip_rec [of n] clip_rec [of "n mod 2 ^ Suc w"] a b
    using Suc.IH [of "n div 2"] by (simp add: mod_mod_cancel)
qed

lemma clip_low_bits:
  assumes "0 < w"
  shows "drop (length (zfill (bin_digits n) w) - w) (zfill (bin_digits n) w)
       = zfill (bin_digits (n mod 2 ^ w)) w"
proof -
  have "n mod 2 ^ w < 2 ^ w" by simp
  from zfill_bin_digits(1) [OF this assms]
  show ?thesis by (subst clip_mod) simp
qed

lemma hex_digit_codes:
  assumes "x \<in> set ''0123456789abcdef''"
  shows "(48 \<le> (of_char x :: nat) \<and> (of_char x :: nat) \<le> 57)
       \<or> (97 \<le> (of_char x :: nat) \<and> (of_char x :: nat) \<le> 102)"
  using assms by auto

lemma hex_check_digit:
  assumes "lower_char c \<in> set ''0123456789abcdef''"
  shows "is_digit_of 16 c"
proof -
  define n where "n = (of_char c :: nat)"
  have n256: "n < 256" unfolding n_def by simp
  show ?thesis
  proof (cases "(65 \<le> n \<and> n \<le> 90) \<or> (192 \<le> n \<and> n \<le> 222 \<and> n \<noteq> 215)")
    case True
    then have l: "lower_char c = char_of (n + 32)"
      by (simp add: lower_char_def n_def Let_def)
    from True have "n + 32 < 256" by arith
    then have "(of_char (char_of (n + 32)) :: nat) = n + 32" by simp
    with hex_digit_codes [OF assms [unfolded l]] True have "65 \<le> n \<and> n \<le> 70" by arith
    then have "n - 55 < 16" by arith
    with \<open>65 \<le> n \<and> n \<le> 70\<close> show ?thesis
      by (simp add: is_digit_of_def digit_val_def Let_def n_def [symmetric])
  next
    case False
    have l: "lower_char c = c"
      unfolding lower_char_def Let_def n_def [symmetric] using False by (rule if_not_P)
    from hex_digit_codes [OF assms [unfolded l]]
    have "(48 \<le> n \<and> n \<le> 57) \<or> (97 \<le> n \<and> n \<le> 102)" by (simp add: n_def)
    then show ?thesis
      by (auto simp: is_digit_of_def digit_val_def Let_def n_def [symmetric])
  qed
qed

lemma py_int_hex:
  assumes "hex_str_check hs" "hs \<noteq> []"
  shows "py_int hs 16 = Inr (digits_value 16 hs)"
proof -
  have "list_all (is_digit_of 16) hs"
    using assms(1) by (auto simp: hex_str_check_def lower_def list_all_iff intro: hex_check_digit)
  with assms(2) show ?thesis by (simp add: py_int_def)
qed

lemma hex_str_to_bin_low_bits:
  assumes "hex_str_check hs" "hs \<noteq> []" "0 < w"
  shows "hex_str_to_bin hs w = Inr (zfill (bin_digits (digits_value 16 hs mod 2 ^ w)) w)"
  using clip_low_bits [OF assms(3)]
  by (simp add: hex_str_to_bin_def py_int_hex [OF assms(1,2)] Let_def)

lemma hex_extractor_as_bin:
  assumes "hex_str_check hs" "hs \<noteq> []" "0 < width f"
  shows "hex_extractor hs f
       = bin_extractor (zfill (bin_digits (digits_value 16 hs mod 2 ^ width f)) (width f)) f"
proof -
  let ?p = "zfill (bin_digits (digits_value 16 hs mod 2 ^ width f)) (width f)"
  have lt: "digits_value 16 hs mod 2 ^ width f < 2 ^ width f" by simp
  note z = zfill_bin_digits [OF lt assms(3)]
  have "bin_extractor ?p f = extract_fields (rev ?p) f"
    using bin_extractor_long [OF z(2), of f] z(1) by simp
  moreover have "hex_extractor hs f = extract_fields (rev ?p) f"
    using assms(1) z(1)
    by (simp add: hex_extractor_def hex_str_to_bin_low_bits [OF assms])
  ultimately show ?thesis by simp
qed

lemma bin_extractor_truncates:
  assumes "bin_str_check ds" "width f \<le> length ds"
  shows "bin_extractor ds f = bin_extractor (drop (length ds - width f) ds) f"
proof -
  let ?t = "drop (length ds - width f) ds"
  have c: "bin_str_check ?t" by (rule bin_str_check_drop [OF assms(1)])
  have l: "length ?t = width f" using assms(2) by simp
  have "bin_extractor ?t f = extract_fields (rev ?t) f"
    using bin_extractor_long [OF c, of f] l by simp
  with bin_extractor_long [OF assms] show ?thesis by simp
qed

lemma tf32_pattern:
  "zfill (bin_digits 3214768828) 32 = ''10111111100111010111101010111100''"
  by (simp add: bin_digits.simps zfill_def digit_char_def)

text \<open>
  C4: for every catalog format and every \<open>n < 2 ^ width\<close>, extracting the zero-padded
  binary string \<open>p\<close> of \<open>n\<close> succeeds; the sign is the first character of \<open>p\<close>, the
  exponent bits are the next \<open>exponent_msb - exponent_lsb + 1\<close> characters and the
  mantissa bits the \<open>mantissa_msb - mantissa_lsb + 1\<close> characters after those, each
  field of exactly that length, and the three concatenate back to \<open>p\<close>; for TF32 they
  give \<open>p\<close> without its 13 unused low bits.
\<close>

theorem C4_fields_concat_to_pattern:
  assumes "(name, f) \<in> set FP_CONFIG" "n < 2 ^ width f"
  shows "bin_extractor (zfill (bin_digits n) (width f)) f
       = Inr (Fp (take 1 (zfill (bin_digits n) (width f)))
                 (take (fst (exponent f) - snd (exponent f) + 1)
                    (drop 1 (zfill (bin_digits n) (width f))))
                 (take (fst (mantissa f) - snd (mantissa f) + 1)
                    (drop (1 + (fst (exponent f) - snd (exponent f) + 1))
                       (zfill (bin_digits n) (width f)))))
     \<and> length (take 1 (zfill (bin_digits n) (width f))) = 1
     \<and> length (take (fst (exponent f) - snd (exponent f) + 1)
                 (drop 1 (zfill (bin_digits n) (width f))))
         = fst (exponent f) - snd (exponent f) + 1
     \<and> length (take (fst (mantissa f) - snd (mantissa f) + 1)
                 (drop (1 + (fst (exponent f) - snd (exponent f) + 1))
                    (zfill (bin_digits n) (width f))))
         = fst (mantissa f) - snd (mantissa f) + 1
     \<and> take 1 (zfill (bin_digits n) (width f))
         @ take (fst (exponent f) - snd (exponent f) + 1)
             (drop 1 (zfill (bin_digits n) (width f)))
         @ take (fst (mantissa f) - snd (mantissa f) + 1)
             (drop (1 + (fst (exponent f) - snd (exponent f) + 1))
                (zfill (bin_digits n) (width f)))
         = (if name = ''TF32'' then take 19 (zfill (bin_digits n) (width f))
            else zfill (bin_digits n) (width f))"
proof -
  define p where "p = zfill (bin_digits n) (width f)"
  define ew where "ew = fst (exponent f) - snd (exponent f) + 1"
  define mw where "mw = fst (mantissa f) - snd (mantissa f) + 1"
  note l = catalog_layout [OF assms(1)]
  have len: "length p = width f" and chk: "bin_str_check p"
    using zfill_bin_digits [OF assms(2)] l by (simp_all add: p_def)
  have e1: "width f - 1 - snd (exponent f) = ew" using l unfolding ew_def by arith
  have e2: "snd (exponent f) - snd (mantissa f) = mw" using l unfolding mw_def by arith
  have e3: "width f - snd (exponent f) = 1 + ew" using l unfolding ew_def by arith
  have h: "[hd p] = take 1 p" using len l by (cases p) auto
  have ex: "bin_extractor p f = Inr (Fp (take 1 p) (take ew (drop 1 p)) (take mw (drop (1 + ew) p)))"
    using bin_extractor_catalog [OF assms(1) chk len] unfolding e1 e2 e3 h .
  have cat: "take 1 p @ take ew (drop 1 p) @ take mw (drop (1 + ew) p)
      = take (width f - snd (mantissa f)) p"
    using fields_concat [OF len, of "snd (exponent f)" "snd (mantissa f)"] l
    unfolding e1 e2 e3 h by simp
  have tk: "take (width f - snd (mantissa f)) p = (if name = ''TF32'' then take 19 p else p)"
    using catalog_cases [OF assms(1)] len
    by (elim disjE conjE) (simp_all add: FPFormat_def)
  have l1: "length (take 1 p) = 1" using len l by simp
  have l2: "length (take ew (drop 1 p)) = ew" using len e3 by simp
  have l3: "length (take mw (drop (1 + ew) p)) = mw" using len e2 e3 l by simp
  show ?thesis
    using ex l1 l2 l3 cat tk unfolding p_def ew_def mw_def by simp
qed

theorem C4_fields_concat_to_pattern_witness:
  "(''TF32'', FPFormat 32 (30, 23) (22, 13)) \<in> set FP_CONFIG \<and> (3214768828::nat) < 2 ^ 32
   \<and> zfill (bin_digits 3214768828) 32 = ''10111111100111010111101010111100''
   \<and> bin_extractor ''10111111100111010111101010111100'' (FPFormat 32 (30, 23) (22, 13))
       = Inr (Fp ''1'' ''01111111'' ''0011101011'')
   \<and> ''1'' @ ''01111111'' @ ''0011101011'' = take 19 ''10111111100111010111101010111100''"
proof -
  have m: "(''TF32'', FPFormat 32 (30, 23) (22, 13)) \<in> set FP_CONFIG"
    by (simp add: FP_CONFIG_def)
  have n: "(3214768828::nat) < 2 ^ width (FPFormat 32 (30, 23) (22, 13))"
    by (simp add: FPFormat_def)
  have w: "width (FPFormat 32 (30, 23) (22, 13)) = 32" by (simp add: FPFormat_def)
  show ?thesis
    using m C4_fields_concat_to_pattern [OF m n, unfolded w tf32_pattern] tf32_pattern
    by (simp add: FPFormat_def)
qed

lemma cleaned_bare_prefix:
  "lower (replace_underscore (strip ''0x'')) = ''0x''"
  "lower (replace_underscore (strip ''0b'')) = ''0b''"
  by code_simp+

lemma update_bits_bare_prefix:
  "update_bits st ''0x'' = (Inr ''Please start with [0x] or [0b]'', st)"
  "update_bits st ''0b'' = (Inr ''Please start with [0x] or [0b]'', st)"
  by (simp_all add: update_bits_def cleaned_bare_prefix)

text \<open>
  C2, amended: for every catalog format, extracting the bare binary prefix \<open>0b\<close>
  succeeds and stores sign \<open>0\<close> and all-zero exponent and mantissa bits of the
  format's field widths. The input handler \<open>update_bits\<close> passes no bare prefix on to
  the extraction: on \<open>0x\<close> and on \<open>0b\<close> alone it answers with its prompt and leaves
  the extractor as it was.
\<close>

theorem C2_bare_prefix:
  assumes "(name, f) \<in> set FP_CONFIG" "fp_fmt st = f"
  shows "extract_fp_str st ''0b'' =
     (None, st\<lparr>self_sign := Some ''0'',
               self_exponent := Some (replicate (fst (exponent f) - snd (exponent f) + 1) (CHR ''0'')),
               self_mantissa := Some (replicate (fst (mantissa f) - snd (mantissa f) + 1) (CHR ''0''))\<rparr>)
     \<and> update_bits st ''0x'' = (Inr ''Please start with [0x] or [0b]'', st)
     \<and> update_bits st ''0b'' = (Inr ''Please start with [0x] or [0b]'', st)"
  using extract_empty_bin [OF assms] update_bits_bare_prefix [of st] by simp

theorem C2_bare_prefix_witness:
  "(''BF16'', FPFormat 16 (14, 7) (6, 0)) \<in> set FP_CONFIG
   \<and> extract_fp_str (FPExtractor_init ''BF16'' (FPFormat 16 (14, 7) (6, 0))) ''0b'' =
     (None, \<lparr>fmt_name = ''BF16'', fp_fmt = FPFormat 16 (14, 7) (6, 0), self_sign = Some ''0'',
             self_exponent = Some ''00000000'', self_mantissa = Some ''0000000''\<rparr>)
   \<and> update_bits (FPExtractor_init ''BF16'' (FPFormat 16 (14, 7) (6, 0))) ''0x'' =
     (Inr ''Please start with [0x] or [0b]'', FPExtractor_init ''BF16'' (FPFormat 16 (14, 7) (6, 0)))
   \<and> update_bits (FPExtractor_init ''BF16'' (FPFormat 16 (14, 7) (6, 0))) ''0b'' =
     (Inr ''Please start with [0x] or [0b]'', FPExtractor_init ''BF16'' (FPFormat 16 (14, 7) (6, 0)))"
proof -
  have m: "(''BF16'', FPFormat 16 (14, 7) (6, 0)) \<in> set FP_CONFIG"
    by (simp add: FP_CONFIG_def)
  have f: "fp_fmt (FPExtractor_init ''BF16'' (FPFormat 16 (14, 7) (6, 0))) = FPFormat 16 (14, 7) (6, 0)"
    by (simp add: FPExtractor_init_def)
  have r: "replicate 8 (CHR ''0'') = ''00000000''" "replicate 7 (CHR ''0'') = ''0000000''"
    by (simp_all add: numeral_eq_Suc)
  show ?thesis
    using m C2_bare_prefix [OF m f]
    by (simp add: FPFormat_def FPExtractor_init_def r)
qed

lemma underscore_not_space: "isspace_char c \<Longrightarrow> c \<noteq> CHR ''_''"
  by (auto simp: isspace_char_def)

lemma replace_underscore_spaces:
  "list_all isspace_char w \<Longrightarrow> replace_underscore w = w"
  by (induction w) (auto simp: replace_underscore_def dest: underscore_not_space)

lemma replace_underscore_append:
  "replace_underscore (a @ b) = replace_underscore a @ replace_underscore b"
  by (simp add: replace_underscore_def)

lemma strip_sandwich:
  assumes "list_all isspace_char w1" "list_all isspace_char w2"
    "x = [] \<or> (\<not> isspace_char (hd x) \<and> \<not> isspace_char (last x))"
  shows "strip (w1 @ x @ w2) = x"
proof (cases "x = []")
  case True
  have "\<forall>c\<in>set (w1 @ w2). isspace_char c"
    using assms(1,2) by (auto simp: list_all_iff)
  then have e: "dropWhile isspace_char (w1 @ w2) = []"
    by (simp only: dropWhile_eq_Nil_conv)
  have "strip (w1 @ [] @ w2) = rev (dropWhile isspace_char (rev (dropWhile isspace_char (w1 @ w2))))"
    by (simp only: strip_def append_Nil)
  also have "\<dots> = []"
    by (simp only: e rev.simps dropWhile.simps)
  finally show ?thesis unfolding True .
next
  case False
  with assms(3) have h: "\<not> isspace_char (hd x)" and t: "\<not> isspace_char (last x)" by simp_all
  have a: "dropWhile isspace_char (w1 @ x @ w2) = x @ w2"
  proof -
    have "dropWhile isspace_char (w1 @ x @ w2) = dropWhile isspace_char (x @ w2)"
      using assms(1) by (intro dropWhile_append2) (simp add: list_all_iff)
    also have "\<dots> = x @ w2" using False h by (cases x) simp_all
    finally show ?thesis .
  qed
  have b: "dropWhile isspace_char (rev w2 @ rev x) = rev x"
  proof -
    have "dropWhile isspace_char (rev w2 @ rev x) = dropWhile isspace_char (rev x)"
      using assms(2) by (intro dropWhile_append2) (simp add: list_all_iff)
    also have "\<dots> = rev x"
      using False t by (cases "rev x") (simp_all add: hd_rev [symmetric])
    finally show ?thesis .
  qed
  show ?thesis by (simp add: strip_def a b)
qed

lemma strip_ends:
  assumes "strip s \<noteq> []"
  shows "\<not> isspace_char (hd (strip s))" "\<not> isspace_char (last (strip s))"
proof -
  define d where "d = dropWhile isspace_char s"
  define r where "r = dropWhile isspace_char (rev d)"
  have s: "strip s = rev r" by (simp add: strip_def d_def r_def)
  with assms have rn: "r \<noteq> []" by simp
  then have "\<not> isspace_char (hd r)" unfolding r_def by (rule hd_dropWhile)
  then show "\<not> isspace_char (last (strip s))"
    using rn by (simp add: s last_rev)
  have dn: "d \<noteq> []" using rn unfolding r_def by auto
  then have hd: "\<not> isspace_char (hd d)" unfolding d_def by (rule hd_dropWhile)
  have "rev d = takeWhile isspace_char (rev d) @ r"
    unfolding r_def by simp
  then have "d = rev r @ rev (takeWhile isspace_char (rev d))"
    by (metis rev_append rev_rev_ident)
  then have "hd d = hd (rev r)" using rn by (metis hd_append2 rev_is_Nil_conv)
  with hd show "\<not> isspace_char (hd (strip s))" by (simp add: s)
qed

lemma strip_decompose:
  "\<exists>w1 w2. s = w1 @ strip s @ w2 \<and> list_all isspace_char w1 \<and> list_all isspace_char w2"
proof -
  define d where "d = dropWhile isspace_char s"
  define r where "r = dropWhile isspace_char (rev d)"
  have st: "strip s = rev r" by (simp add: strip_def d_def r_def)
  have "rev d = takeWhile isspace_char (rev d) @ r"
    unfolding r_def by simp
  then have d: "d = rev r @ rev (takeWhile isspace_char (rev d))"
    by (metis rev_append rev_rev_ident)
  have s: "s = takeWhile isspace_char s @ d" unfolding d_def by simp
  have w1: "list_all isspace_char (takeWhile isspace_char s)"
    by (auto simp: list_all_iff dest: set_takeWhileD)
  have w2: "list_all isspace_char (rev (takeWhile isspace_char (rev d)))"
    by (auto simp: list_all_iff dest: set_takeWhileD)
  have "s = takeWhile isspace_char s @ strip s @ rev (takeWhile isspace_char (rev d))"
    using s d st by metis
  with w1 w2 show ?thesis by blast
qed

lemma replace_underscore_ends:
  assumes "x \<noteq> []" "hd x \<noteq> CHR ''_''" "last x \<noteq> CHR ''_''"
  shows "replace_underscore x \<noteq> []" "hd (replace_underscore x) = hd x"
    "last (replace_underscore x) = last x"
proof -
  from assms(1,2) show "replace_underscore x \<noteq> []" "hd (replace_underscore x) = hd x"
    by (cases x; simp add: replace_underscore_def)+
  from assms(1) obtain y z where x: "x = y @ [z]" by (metis rev_exhaust)
  with assms(3) show "last (replace_underscore x) = last x"
    by (simp add: replace_underscore_def)
qed

lemma strip_replace_underscore:
  assumes "strip s = [] \<or> (hd (strip s) \<noteq> CHR ''_'' \<and> last (strip s) \<noteq> CHR ''_'')"
  shows "strip (replace_underscore s) = replace_underscore (strip s)"
proof -
  obtain w1 w2 where s: "s = w1 @ strip s @ w2"
    and w: "list_all isspace_char w1" "list_all isspace_char w2"
    using strip_decompose [of s] by blast
  have r: "replace_underscore s = w1 @ replace_underscore (strip s) @ w2"
    by (subst s) (simp add: replace_underscore_append replace_underscore_spaces w)
  have e: "replace_underscore (strip s) = []
      \<or> (\<not> isspace_char (hd (replace_underscore (strip s)))
          \<and> \<not> isspace_char (last (replace_underscore (strip s))))"
  proof (cases "strip s = []")
    case True
    then show ?thesis by (simp add: replace_underscore_def)
  next
    case False
    with assms have u: "hd (strip s) \<noteq> CHR ''_''" "last (strip s) \<noteq> CHR ''_''" by simp_all
    show ?thesis
      using replace_underscore_ends [OF False u] strip_ends [OF False] by simp
  qed
  show ?thesis unfolding r by (rule strip_sandwich [OF w e])
qed

lemma cleaned_padded_examples:
  "lower (replace_underscore (strip '' 0x1_2 '')) = ''0x12''"
  "lower (replace_underscore (strip '' 0x12 '')) = ''0x12''"
  by code_simp+

lemma update_bits_12_e5m2:
  "update_bits (FPExtractor_init ''FP8_E5M2'' (FPFormat 8 (6, 2) (1, 0))) ''0x12''
     = (Inr ''Normal: sign:0, exponent:-11, mantissa: 1.10'',
        \<lparr>fmt_name = ''FP8_E5M2'', fp_fmt = FPFormat 8 (6, 2) (1, 0), self_sign = Some ''0'',
          self_exponent = Some ''00100'', self_mantissa = Some ''10''\<rparr>)"
  by code_simp

lemma padded_example:
  "strip '' 0x1_2 '' = ''0x1_2''" "replace_underscore '' 0x1_2 '' = '' 0x12 ''"
  by code_simp+

text \<open>
  C9, amended: the underscores are stripped by the input handler \<open>update_bits\<close> of the
  display layer, after it has trimmed the surrounding whitespace and before it calls
  the extraction: for every input whose trimmed form neither starts nor ends with an
  underscore, the handler's outcome is that of the input with its underscores removed;
  \<open>0x1_2\<close> gives what \<open>0x12\<close> gives, also when padded with blanks. The extraction
  \<open>extract_fp_str\<close> itself rejects \<open>0x1_2\<close> and leaves the extractor as it was.
\<close>

theorem C9_handler_strips_underscores:
  assumes "strip s = [] \<or> (hd (strip s) \<noteq> CHR ''_'' \<and> last (strip s) \<noteq> CHR ''_'')"
  shows "update_bits st s = update_bits st (replace_underscore s)
     \<and> update_bits st ''0x1_2'' = update_bits st ''0x12''
     \<and> update_bits st '' 0x1_2 '' = update_bits st ''0x12''
     \<and> extract_fp_str st ''0x1_2'' = (Some (ValueError ''Invalid Hex Value: [1_2]''), st)"
proof -
  have "lower (replace_underscore (strip s))
      = lower (replace_underscore (strip (replace_underscore s)))"
    by (simp only: strip_replace_underscore [OF assms] replace_underscore_idem)
  then have a: "update_bits st s = update_bits st (replace_underscore s)"
    by (rule update_bits_cleaned)
  have b: "update_bits st ''0x1_2'' = update_bits st ''0x12''"
    by (rule update_bits_cleaned) (simp only: cleaned_examples)
  have c: "update_bits st '' 0x1_2 '' = update_bits st ''0x12''"
    by (rule update_bits_cleaned) (simp only: cleaned_examples cleaned_padded_examples)
  show ?thesis using a b c extract_underscore by (intro conjI)
qed

theorem C9_handler_strips_underscores_witness:
  "(strip '' 0x1_2 '' = [] \<or> (hd (strip '' 0x1_2 '') \<noteq> CHR ''_'' \<and> last (strip '' 0x1_2 '') \<noteq> CHR ''_''))
   \<and> replace_underscore '' 0x1_2 '' = '' 0x12 ''
   \<and> update_bits (FPExtractor_init ''FP8_E5M2'' (FPFormat 8 (6, 2) (1, 0))) '' 0x1_2 ''
     = update_bits (FPExtractor_init ''FP8_E5M2'' (FPFormat 8 (6, 2) (1, 0))) '' 0x12 ''
   \<and> update_bits (FPExtractor_init ''FP8_E5M2'' (FPFormat 8 (6, 2) (1, 0))) '' 0x1_2 ''
     = (Inr ''Normal: sign:0, exponent:-11, mantissa: 1.10'',
        \<lparr>fmt_name = ''FP8_E5M2'', fp_fmt = FPFormat 8 (6, 2) (1, 0), self_sign = Some ''0'',
          self_exponent = Some ''00100'', self_mantissa = Some ''10''\<rparr>)"
proof -
  let ?st = "FPExtractor_init ''FP8_E5M2'' (FPFormat 8 (6, 2) (1, 0))"
  have h: "strip '' 0x1_2 '' = [] \<or> (hd (strip '' 0x1_2 '') \<noteq> CHR ''_'' \<and> last (strip '' 0x1_2 '') \<noteq> CHR ''_'')"
    unfolding padded_example by simp
  note t = C9_handler_strips_underscores [OF h, of ?st]
  from t have a: "update_bits ?st '' 0x1_2 '' = update_bits ?st (replace_underscore '' 0x1_2 '')"
    by (elim conjE)
  then have a': "update_bits ?st '' 0x1_2 '' = update_bits ?st '' 0x12 ''"
    unfolding padded_example .
  from t have "update_bits ?st '' 0x1_2 '' = update_bits ?st ''0x12''"
    by (elim conjE)
  also note update_bits_12_e5m2
  finally show ?thesis using h padded_example(2) a' by (intro conjI)
qed

lemma hex_digit_lower_fixed:
  assumes "x \<in> set ''0123456789abcdef''"
  shows "lower_char x = x"
  using assms by (auto simp: lower_char_def)

lemma hex_str_check_lower:
  assumes "hex_str_check hs"
  shows "hex_str_check (lower hs)"
proof -
  have m: "\<forall>c\<in>set hs. lower_char c \<in> set ''0123456789abcdef''"
    using assms unfolding hex_str_check_def lower_def list_all_iff by simp
  have "\<forall>c\<in>set hs. lower_char (lower_char c) = lower_char c"
    using m hex_digit_lower_fixed by blast
  then have "lower (lower hs) = lower hs"
    unfolding lower_def by (simp only: map_map) (rule map_cong, simp_all)
  with assms show ?thesis unfolding hex_str_check_def by simp
qed

lemma digit_val_lower:
  assumes "lower_char c \<in> set ''0123456789abcdef''"
  shows "digit_val (lower_char c) = digit_val c"
proof -
  define n where "n = (of_char c :: nat)"
  show ?thesis
  proof (cases "(65 \<le> n \<and> n \<le> 90) \<or> (192 \<le> n \<and> n \<le> 222 \<and> n \<noteq> 215)")
    case True
    then have l: "lower_char c = char_of (n + 32)"
      by (simp add: lower_char_def n_def Let_def)
    from True have "n + 32 < 256" by arith
    then have o: "(of_char (char_of (n + 32)) :: nat) = n + 32" by simp
    with hex_digit_codes [OF assms [unfolded l]] True have r: "65 \<le> n \<and> n \<le> 70" by arith
    then have "digit_val c = Some (n - 55)"
      by (simp add: digit_val_def Let_def n_def [symmetric])
    moreover from r have "n + 32 - 87 = n - 55" by arith
    with r have "digit_val (char_of (n + 32)) = Some (n - 55)"
      by (simp add: digit_val_def Let_def o)
    ultimately show ?thesis by (simp add: l)
  next
    case False
    have l: "lower_char c = c"
      unfolding lower_char_def Let_def n_def [symmetric] using False by (rule if_not_P)
    show ?thesis by (simp add: l)
  qed
qed

lemma digits_value_lower:
  assumes "hex_str_check hs"
  shows "digits_value 16 (lower hs) = digits_value 16 hs"
  using assms
proof (induction hs rule: rev_induct)
  case Nil
  show ?case by (simp add: lower_def)
next
  case (snoc c hs)
  from snoc.prems have h: "hex_str_check hs" and c: "lower_char c \<in> set ''0123456789abcdef''"
    by (simp_all add: hex_str_check_def lower_def)
  have "lower (hs @ [c]) = lower hs @ [lower_char c]" by (simp add: lower_def)
  then show ?case
    using snoc.IH [OF h] digit_val_lower [OF c] by (simp add: digits_value_snoc)
qed

lemma extract_fp_str_hex:
  "extract_fp_str st (''0x'' @ hs) = extract_hex st (lower hs)"
  by (simp add: extract_fp_str_def lower_def startswith_def lower_char_def)

lemma extract_hex_catalog:
  assumes "(name, f) \<in> set FP_CONFIG" "fp_fmt st = f" "hex_str_check hs" "hs \<noteq> []"
  shows "extract_fp_str st (''0x'' @ hs)
       = extract_bin st (zfill (bin_digits (digits_value 16 hs mod 2 ^ width f)) (width f))"
proof -
  note l = catalog_layout [OF assms(1)]
  have w: "0 < width f" using l by simp
  have n: "lower hs \<noteq> []" using assms(4) by (simp add: lower_def)
  have "extract_hex st (lower hs)
      = extract_bin st (zfill (bin_digits (digits_value 16 (lower hs) mod 2 ^ width f)) (width f))"
    using hex_extractor_as_bin [OF hex_str_check_lower [OF assms(3)] n w] assms(2)
    by (simp add: extract_hex_def extract_bin_def)
  then show ?thesis
    unfolding extract_fp_str_hex digits_value_lower [OF assms(3)] .
qed

lemma extract_bin_fields:
  assumes "(name, f) \<in> set FP_CONFIG" "fp_fmt st = f" "bin_str_check s" "length s = width f"
  shows "extract_bin st s =
     (None, st\<lparr>self_sign := Some (take 1 s),
               self_exponent := Some (take (fst (exponent f) - snd (exponent f) + 1) (drop 1 s)),
               self_mantissa := Some (take (fst (mantissa f) - snd (mantissa f) + 1)
                                        (drop (1 + (fst (exponent f) - snd (exponent f) + 1)) s))\<rparr>)"
proof -
  define ew where "ew = fst (exponent f) - snd (exponent f) + 1"
  define mw where "mw = fst (mantissa f) - snd (mantissa f) + 1"
  note l = catalog_layout [OF assms(1)]
  have e1: "width f - 1 - snd (exponent f) = ew" using l unfolding ew_def by arith
  have e2: "snd (exponent f) - snd (mantissa f) = mw" using l unfolding mw_def by arith
  have e3: "width f - snd (exponent f) = 1 + ew" using l unfolding ew_def by arith
  have h: "[hd s] = take 1 s" using assms(4) l by (cases s) auto
  show ?thesis
    using extract_bin_catalog [OF assms] unfolding e1 e2 e3 h
    unfolding ew_def mw_def .
qed

text \<open>
  C6: for every catalog format, a binary digit string longer than the width is not
  rejected: the extraction stores the fields of its last \<open>width\<close> digits (sign the
  first of them, then the exponent bits, then the mantissa bits), exactly as for those
  digits alone. A hexadecimal digit string is not rejected either: the extraction
  stores the fields of its value modulo \<open>2 ^ width\<close> written with \<open>width\<close> binary
  digits.
\<close>

theorem C6_overlong_input_truncated:
  assumes "(name, f) \<in> set FP_CONFIG" "fp_fmt st = f"
    "bin_str_check ds" "width f \<le> length ds"
    "hex_str_check hs" "hs \<noteq> []"
  shows "extract_fp_str st (''0b'' @ ds) =
     (None, st\<lparr>self_sign := Some (take 1 (drop (length ds - width f) ds)),
               self_exponent := Some (take (fst (exponent f) - snd (exponent f) + 1)
                                        (drop 1 (drop (length ds - width f) ds))),
               self_mantissa := Some (take (fst (mantissa f) - snd (mantissa f) + 1)
                                        (drop (1 + (fst (exponent f) - snd (exponent f) + 1))
                                           (drop (length ds - width f) ds)))\<rparr>)
     \<and> extract_fp_str st (''0b'' @ ds) = extract_fp_str st (''0b'' @ drop (length ds - width f) ds)
     \<and> extract_fp_str st (''0x'' @ hs) =
     (None, st\<lparr>self_sign := Some (take 1 (zfill (bin_digits (digits_value 16 hs mod 2 ^ width f)) (width f))),
               self_exponent := Some (take (fst (exponent f) - snd (exponent f) + 1)
                                        (drop 1 (zfill (bin_digits (digits_value 16 hs mod 2 ^ width f)) (width f)))),
               self_mantissa := Some (take (fst (mantissa f) - snd (mantissa f) + 1)
                                        (drop (1 + (fst (exponent f) - snd (exponent f) + 1))
                                           (zfill (bin_digits (digits_value 16 hs mod 2 ^ width f)) (width f))))\<rparr>)
     \<and> extract_fp_str st (''0x'' @ hs)
         = extract_fp_str st (''0b'' @ zfill (bin_digits (digits_value 16 hs mod 2 ^ width f)) (width f))"
proof -
  note l = catalog_layout [OF assms(1)]
  define t where "t = drop (length ds - width f) ds"
  define p where "p = zfill (bin_digits (digits_value 16 hs mod 2 ^ width f)) (width f)"
  have ct: "bin_str_check t" unfolding t_def by (rule bin_str_check_drop [OF assms(3)])
  have lt: "length t = width f" using assms(4) by (simp add: t_def)
  have a: "extract_bin st ds = extract_bin st t"
    using bin_extractor_truncates [OF assms(3), of f] assms(2,4)
    by (simp add: extract_bin_def t_def)
  have w: "0 < width f" using l by simp
  have lp: "digits_value 16 hs mod 2 ^ width f < 2 ^ width f" by simp
  have cp: "bin_str_check p" and lenp: "length p = width f"
    using zfill_bin_digits [OF lp w] by (simp_all add: p_def)
  have c: "extract_fp_str st (''0x'' @ hs) = extract_bin st p"
    unfolding p_def by (rule extract_hex_catalog [OF assms(1,2,5,6)])
  have b1: "extract_fp_str st (''0b'' @ ds) = extract_bin st t"
    unfolding extract_fp_str_bin [OF assms(3)] by (rule a)
  have b2: "extract_fp_str st (''0b'' @ t) = extract_bin st t"
    by (rule extract_fp_str_bin [OF ct])
  have b3: "extract_fp_str st (''0b'' @ p) = extract_bin st p"
    by (rule extract_fp_str_bin [OF cp])
  show ?thesis
    unfolding t_def [symmetric] p_def [symmetric] b1 b2 b3 c
    using extract_bin_fields [OF assms(1,2) ct lt] extract_bin_fields [OF assms(1,2) cp lenp]
    by (intro conjI refl)
qed

lemma c6_examples:
  "bin_str_check ''10101010101010110010''" "bin_str_check ''11111111111111111111''"
  "hex_str_check ''1B2''"
  by code_simp+

lemma c6_value: "zfill (bin_digits (digits_value 16 ''1B2'' mod 2 ^ 8)) 8 = ''10110010''"
  by (simp add: digits_value_def digit_val_def bin_digits.simps zfill_def digit_char_def)

theorem C6_overlong_input_truncated_witness:
  "(''FP8_E4M3'', FPFormat 8 (6, 3) (2, 0)) \<in> set FP_CONFIG
   \<and> bin_str_check ''10101010101010110010'' \<and> hex_str_check ''1B2''
   \<and> extract_fp_str (FPExtractor_init ''FP8_E4M3'' (FPFormat 8 (6, 3) (2, 0))) ''0b10101010101010110010''
       = (None, \<lparr>fmt_name = ''FP8_E4M3'', fp_fmt = FPFormat 8 (6, 3) (2, 0), self_sign = Some ''1'',
                 self_exponent = Some ''0110'', self_mantissa = Some ''010''\<rparr>)
   \<and> extract_fp_str (FPExtractor_init ''FP8_E4M3'' (FPFormat 8 (6, 3) (2, 0))) ''0b10101010101010110010''
       = extract_fp_str (FPExtractor_init ''FP8_E4M3'' (FPFormat 8 (6, 3) (2, 0))) ''0b10110010''
   \<and> extract_fp_str (FPExtractor_init ''FP8_E4M3'' (FPFormat 8 (6, 3) (2, 0))) ''0x1B2''
       = (None, \<lparr>fmt_name = ''FP8_E4M3'', fp_fmt = FPFormat 8 (6, 3) (2, 0), self_sign = Some ''1'',
                 self_exponent = Some ''0110'', self_mantissa = Some ''010''\<rparr>)
   \<and> extract_fp_str (FPExtractor_init ''FP8_E4M3'' (FPFormat 8 (6, 3) (2, 0))) ''0b11111111111111111111''
       = extract_fp_str (FPExtractor_init ''FP8_E4M3'' (FPFormat 8 (6, 3) (2, 0))) ''0b11111111''"
proof -
  let ?st = "FPExtractor_init ''FP8_E4M3'' (FPFormat 8 (6, 3) (2, 0))"
  have m: "(''FP8_E4M3'', FPFormat 8 (6, 3) (2, 0)) \<in> set FP_CONFIG"
    by (simp add: FP_CONFIG_def)
  have f: "fp_fmt ?st = FPFormat 8 (6, 3) (2, 0)" by (simp add: FPExtractor_init_def)
  have w1: "width (FPFormat 8 (6, 3) (2, 0)) \<le> length ''10101010101010110010''"
    and w2: "width (FPFormat 8 (6, 3) (2, 0)) \<le> length ''11111111111111111111''"
    by (simp_all add: FPFormat_def)
  have n: "''1B2'' \<noteq> []" by simp
  have w8: "width (FPFormat 8 (6, 3) (2, 0)) = 8" by (simp add: FPFormat_def)
  note t1 = C6_overlong_input_truncated [OF m f c6_examples(1) w1 c6_examples(3) n,
      unfolded w8 c6_value]
  note t2 = C6_overlong_input_truncated [OF m f c6_examples(2) w2 c6_examples(3) n,
      unfolded w8 c6_value]
  have a: "extract_fp_str ?st ''0b10101010101010110010''
       = (None, \<lparr>fmt_name = ''FP8_E4M3'', fp_fmt = FPFormat 8 (6, 3) (2, 0), self_sign = Some ''1'',
                 self_exponent = Some ''0110'', self_mantissa = Some ''010''\<rparr>)"
    using t1 [THEN conjunct1] by (simp add: FPFormat_def FPExtractor_init_def)
  have b: "extract_fp_str ?st ''0b10101010101010110010'' = extract_fp_str ?st ''0b10110010''"
    using t1 [THEN conjunct2, THEN conjunct1] by simp
  have c: "extract_fp_str ?st ''0x1B2''
       = (None, \<lparr>fmt_name = ''FP8_E4M3'', fp_fmt = FPFormat 8 (6, 3) (2, 0), self_sign = Some ''1'',
                 self_exponent = Some ''0110'', self_mantissa = Some ''010''\<rparr>)"
    using t1 [THEN conjunct2, THEN conjunct2, THEN conjunct1]
    by (simp add: FPFormat_def FPExtractor_init_def)
  have d: "extract_fp_str ?st ''0b11111111111111111111'' = extract_fp_str ?st ''0b11111111''"
    using t2 [THEN conjunct2, THEN conjunct1] by simp
  show ?thesis using m c6_examples(1,3) a b c d by (intro conjI)
qed

end
